theory Spec2Isabelle
  imports Main "HOL-Library.Sublist"
begin

section \<open>Strings\<close>

text \<open>
  A JavaScript string is a sequence of code units. The model uses \<^typ>\<open>string\<close>, one
  \<^typ>\<open>char\<close> per code unit, which covers the units \<open>0x00\<close> to \<open>0xFF\<close>. Every test
  the program makes on a unit is a test against an ASCII character, apart from the
  white space removed by \<open>trim\<close>; all other units are copied.
\<close>

definition backslash :: char where
  "backslash = CHR 0x5C"

definition isWhitespace :: "char \<Rightarrow> bool" where
  "isWhitespace c \<longleftrightarrow>
     c \<in> set [CHR 0x09, CHR 0x0A, CHR 0x0B, CHR 0x0C, CHR 0x0D, CHR 0x20, CHR 0xA0]"

text \<open>\<open>String.prototype.trim\<close>: white space and line terminators go from both ends.\<close>

definition trim :: "string \<Rightarrow> string" where
  "trim s = rev (dropWhile isWhitespace (rev (dropWhile isWhitespace s)))"

definition startsWith :: "string \<Rightarrow> string \<Rightarrow> bool" where
  "startsWith s p \<longleftrightarrow> take (length p) s = p"

text \<open>\<open>Array.prototype.join\<close>.\<close>

fun join :: "string \<Rightarrow> string list \<Rightarrow> string" where
  "join sep [] = []"
| "join sep [x] = x"
| "join sep (x # y # zs) = x @ sep @ join sep (y # zs)"

subsection \<open>Global replacement of a literal pattern\<close>

text \<open>
  The regular expressions of the program are literal character sequences with the flag
  \<open>g\<close> and, in \<open>safeInline\<close>, the flag \<open>i\<close>. Without the flag \<open>u\<close>, the flag \<open>i\<close>
  compares the upper-case forms of two code units, and a unit from \<open>0x80\<close> on never takes
  an ASCII upper-case form. \<open>canonicalize\<close> gives the code of that form; the two Latin-1
  letters whose upper-case form lies beyond \<open>0xFF\<close> keep their own code, which no other
  unit of the model has as its form.
\<close>

definition canonicalize :: "char \<Rightarrow> nat" where
  "canonicalize c =
     (let n = (of_char c :: nat)
      in if (97 \<le> n \<and> n \<le> 122) \<or> (224 \<le> n \<and> n \<le> 254 \<and> n \<noteq> 247)
         then n - 32 else n)"

definition unitMatches :: "bool \<Rightarrow> char \<Rightarrow> char \<Rightarrow> bool" where
  "unitMatches ignoreCase p c \<longleftrightarrow>
     (if ignoreCase then canonicalize p = canonicalize c else p = c)"

fun matchesAt :: "bool \<Rightarrow> string \<Rightarrow> string \<Rightarrow> bool" where
  "matchesAt ic [] s = True"
| "matchesAt ic (p # ps) [] = False"
| "matchesAt ic (p # ps) (c # cs) = (unitMatches ic p c \<and> matchesAt ic ps cs)"

text \<open>
  \<open>str.replace(/pat/g, rep)\<close>: scan from the left, replace a match and go on behind it.
  The patterns of the program are never empty and its replacement texts hold no \<open>$\<close>,
  so a replacement text stands for itself.
\<close>

function replaceAll :: "bool \<Rightarrow> string \<Rightarrow> string \<Rightarrow> string \<Rightarrow> string" where
  "replaceAll ic pat rep [] = []"
| "replaceAll ic pat rep (c # cs) =
     (if pat \<noteq> [] \<and> matchesAt ic pat (c # cs)
      then rep @ replaceAll ic pat rep (drop (length pat) (c # cs))
      else c # replaceAll ic pat rep cs)"
  by pat_completeness auto
termination
  by (relation "measure (\<lambda>(ic, pat, rep, s). length s)") (auto simp: neq_Nil_conv)

text \<open>Whether the pattern matches somewhere in the text.\<close>

fun occurs :: "bool \<Rightarrow> string \<Rightarrow> string \<Rightarrow> bool" where
  "occurs ic pat [] = matchesAt ic pat []"
| "occurs ic pat (c # cs) = (matchesAt ic pat (c # cs) \<or> occurs ic pat cs)"

text \<open>
  A text put together from its parts: each part is a stretch of text and the match that
  follows it; the rest is the text behind the last match.
\<close>

fun joinParts :: "(string \<times> string) list \<Rightarrow> string \<Rightarrow> string" where
  "joinParts [] rest = rest"
| "joinParts ((t, m) # parts) rest = t @ m @ joinParts parts rest"

text \<open>
  How an HTML parser finds the end of a \<open>script\<close> or \<open>style\<close> element: the text of the
  element ends before the first \<open></\<close> that is followed by the name of the element, in any
  letter case, and then by white space, \<open>/\<close> or \<open>>\<close>. (Inside a script, text after
  \<open><!--\<close> can be exempt; no other text ends the element.) \<open>tagEndSpellings\<close> are the
  units other than \<open>>\<close> that may follow the name; a carriage return is among them
  because the parser reads it as a line feed.
\<close>

definition tagEndSpellings :: string where
  "tagEndSpellings = [CHR 0x09, CHR 0x0A, CHR 0x0C, CHR 0x0D, CHR 0x20, CHR ''/'']"

definition closesElement :: "string \<Rightarrow> string \<Rightarrow> bool" where
  "closesElement name s \<longleftrightarrow>
     list_ex (\<lambda>d. occurs True (''</'' @ name @ [d]) s) (tagEndSpellings @ ''>'')"

subsection \<open>The escaping functions\<close>

definition escapeHtml :: "string \<Rightarrow> string" where
  \<open>escapeHtml str =
     replaceAll False [CHR 0x27] ''&#39;''
       (replaceAll False ''"'' ''&quot;''
         (replaceAll False ''>'' ''&gt;''
           (replaceAll False ''<'' ''&lt;''
             (replaceAll False ''&'' ''&amp;'' str))))\<close>

definition safeInline :: "string \<Rightarrow> string \<Rightarrow> string" where
  "safeInline content kind =
     (if content = [] then []
      else if kind = ''script''
        then replaceAll True ''</script>'' (''<'' @ [backslash] @ ''/script>'') content
      else if kind = ''style''
        then replaceAll True ''</style>'' (''<'' @ [backslash] @ ''/style>'') content
      else content)"

text \<open>The constant \<open>escapedDiff\<close> of \<open>generateHtml\<close>.\<close>

definition escapedDiff :: "string \<Rightarrow> string" where
  "escapedDiff diffOutput =
     replaceAll False [CHR 0x0D] [backslash, CHR ''r'']
       (replaceAll False [CHR 0x0A] [backslash, CHR ''n'']
         (replaceAll False [CHR 0x27] [backslash, CHR 0x27]
           (replaceAll False [backslash] [backslash, backslash] diffOutput)))"

subsection \<open>Reading the escaped texts back\<close>

text \<open>
  The value of an escape sequence in a JavaScript string literal. The sequences that
  read further units (the octal, hexadecimal and Unicode escapes) and the line
  continuations are left out: the decoder below rejects them.
\<close>

definition escapeChar :: "char \<Rightarrow> char option" where
  \<open>escapeChar e =
     (if e = CHR 0x27 \<or> e = CHR 0x22 \<or> e = backslash then Some e
      else if e = CHR ''b'' then Some (CHR 0x08)
      else if e = CHR ''f'' then Some (CHR 0x0C)
      else if e = CHR ''n'' then Some (CHR 0x0A)
      else if e = CHR ''r'' then Some (CHR 0x0D)
      else if e = CHR ''t'' then Some (CHR 0x09)
      else if e = CHR ''v'' then Some (CHR 0x0B)
      else if e \<in> set ''0123456789xu'' \<or> e = CHR 0x0A \<or> e = CHR 0x0D then None
      else Some e)\<close>

text \<open>
  The string value of the text between the quotes of a single-quoted literal on one
  line; \<open>None\<close> when the text is no such literal: it holds a bare quote, a line
  terminator, or a backslash with nothing to escape.
\<close>

fun decodeSingleQuoted :: "string \<Rightarrow> string option" where
  "decodeSingleQuoted [] = Some []"
| "decodeSingleQuoted [c] =
     (if c = backslash \<or> c = CHR 0x27 \<or> c = CHR 0x0A \<or> c = CHR 0x0D then None else Some [c])"
| "decodeSingleQuoted (c # e # rest) =
     (if c = backslash then
        (case escapeChar e of
           None \<Rightarrow> None
         | Some d \<Rightarrow> map_option ((#) d) (decodeSingleQuoted rest))
      else if c = CHR 0x27 \<or> c = CHR 0x0A \<or> c = CHR 0x0D then None
      else map_option ((#) c) (decodeSingleQuoted (e # rest)))"

text \<open>What \<open>escapeHtml\<close> writes for one code unit.\<close>

definition entity :: "char \<Rightarrow> string" where
  \<open>entity c =
     (if c = CHR ''&'' then ''&amp;''
      else if c = CHR ''<'' then ''&lt;''
      else if c = CHR ''>'' then ''&gt;''
      else if c = CHR ''"'' then ''&quot;''
      else if c = CHR 0x27 then ''&#39;''
      else [c])\<close>

definition entities :: "string list" where
  \<open>entities = [''&amp;'', ''&lt;'', ''&gt;'', ''&quot;'', ''&#39;'']\<close>

definition startsEntity :: "string \<Rightarrow> bool" where
  "startsEntity t \<longleftrightarrow> list_ex (\<lambda>e. take (length e) t = e) entities"

text \<open>
  The text an HTML parser shows for element content made of plain units and the five
  character references above; \<open>None\<close> when the content holds \<open><\<close>, where markup
  would start, or \<open>&\<close> before anything else.
\<close>

function decodeHtmlText :: "string \<Rightarrow> string option" where
  "decodeHtmlText [] = Some []"
| "decodeHtmlText (c # cs) =
     (if c = CHR ''<'' then None
      else if c = CHR ''&'' then
        (if take 4 cs = ''amp;'' then map_option ((#) (CHR ''&'')) (decodeHtmlText (drop 4 cs))
         else if take 3 cs = ''lt;'' then map_option ((#) (CHR ''<'')) (decodeHtmlText (drop 3 cs))
         else if take 3 cs = ''gt;'' then map_option ((#) (CHR ''>'')) (decodeHtmlText (drop 3 cs))
         else if take 5 cs = ''quot;'' then map_option ((#) (CHR 0x22)) (decodeHtmlText (drop 5 cs))
         else if take 4 cs = ''#39;'' then map_option ((#) (CHR 0x27)) (decodeHtmlText (drop 4 cs))
         else None)
      else map_option ((#) c) (decodeHtmlText cs))"
  by pat_completeness auto
termination
  by (relation "measure length") auto

section \<open>The document tree of the headless browser\<close>

text \<open>
  The DOM as the static renderer meets it. Every node carries its identity, so that a
  node list taken from the tree still names its nodes after the tree has changed. A
  document is the list of the children of its document node. A \<open>template\<close> element
  keeps what the parser read between its tags in its content, a document fragment of
  its own: those nodes are not children of the element and not part of the tree of
  the document.
\<close>

datatype node =
    Element nat string "(string \<times> string) list" "node list"
  | Template nat "(string \<times> string) list" "node list"
  | Text nat string
  | Comment nat string
  | Doctype nat string

type_synonym document = "node list"

fun nodeId :: "node \<Rightarrow> nat" where
  "nodeId (Element i name attrs cs) = i"
| "nodeId (Template i attrs content) = i"
| "nodeId (Text i content) = i"
| "nodeId (Comment i content) = i"
| "nodeId (Doctype i name) = i"

text \<open>\<open>el.children\<close>: the child elements, without the other nodes.\<close>

fun isElement :: "node \<Rightarrow> bool" where
  "isElement (Element i name attrs cs) = True"
| "isElement (Template i attrs content) = True"
| "isElement (Text i content) = False"
| "isElement (Comment i content) = False"
| "isElement (Doctype i name) = False"

fun children :: "node \<Rightarrow> node list" where
  "children (Element i name attrs cs) = filter isElement cs"
| "children (Template i attrs content) = []"
| "children (Text i content) = []"
| "children (Comment i content) = []"
| "children (Doctype i name) = []"

fun firstSome :: "'a option list \<Rightarrow> 'a option" where
  "firstSome [] = None"
| "firstSome (Some x # rest) = Some x"
| "firstSome (None # rest) = firstSome rest"

text \<open>\<open>document.getElementById\<close>: the first element in tree order with that id.\<close>

fun elementById :: "string \<Rightarrow> node \<Rightarrow> node option" where
  "elementById v (Element i name attrs cs) =
     (if map_of attrs ''id'' = Some v then Some (Element i name attrs cs)
      else firstSome (map (elementById v) cs))"
| "elementById v (Template i attrs content) =
     (if map_of attrs ''id'' = Some v then Some (Template i attrs content) else None)"
| "elementById v (Text i content) = None"
| "elementById v (Comment i content) = None"
| "elementById v (Doctype i name) = None"

definition getElementById :: "document \<Rightarrow> string \<Rightarrow> node option" where
  "getElementById doc v = firstSome (map (elementById v) doc)"

text \<open>
  \<open>document.querySelectorAll\<close> for a type selector: the identities of the elements of
  the tree with that name, in tree order. The content of a template is not searched.
\<close>

fun selectAll :: "string \<Rightarrow> node \<Rightarrow> nat list" where
  "selectAll sel (Element i name attrs cs) =
     (if name = sel then [i] else []) @ concat (map (selectAll sel) cs)"
| "selectAll sel (Template i attrs content) = (if ''template'' = sel then [i] else [])"
| "selectAll sel (Text i content) = []"
| "selectAll sel (Comment i content) = []"
| "selectAll sel (Doctype i name) = []"

definition querySelectorAll :: "document \<Rightarrow> string \<Rightarrow> nat list" where
  "querySelectorAll doc sel = concat (map (selectAll sel) doc)"

text \<open>
  \<open>s.remove()\<close>: the node leaves its parent, with its subtree. Removing a node that
  is no longer in the document leaves the document as it is.
\<close>

fun removeBelow :: "nat \<Rightarrow> node \<Rightarrow> node" where
  "removeBelow i (Element j name attrs cs) =
     Element j name attrs (map (removeBelow i) (filter (\<lambda>c. nodeId c \<noteq> i) cs))"
| "removeBelow i (Template j attrs content) = Template j attrs content"
| "removeBelow i (Text j content) = Text j content"
| "removeBelow i (Comment j content) = Comment j content"
| "removeBelow i (Doctype j name) = Doctype j name"

definition removeNode :: "nat \<Rightarrow> document \<Rightarrow> document" where
  "removeNode i doc = map (removeBelow i) (filter (\<lambda>c. nodeId c \<noteq> i) doc)"

text \<open>\<open>querySelectorAll('script').forEach((s) => s.remove())\<close>.\<close>

definition stripScripts :: "document \<Rightarrow> document" where
  "stripScripts doc = fold removeNode (querySelectorAll doc ''script'') doc"

subsection \<open>Serialization\<close>

text \<open>
  \<open>dom.serialize()\<close>, after the algorithm for serializing HTML fragments: a start tag
  with the attributes, the children and an end tag; no children and no end tag for a
  void element; for a template its content; text as it is below an element whose
  content is raw text, and escaped elsewhere.
\<close>

definition voidElements :: "string list" where
  "voidElements =
     [''area'', ''base'', ''basefont'', ''bgsound'', ''br'', ''col'', ''embed'', ''frame'',
      ''hr'', ''img'', ''input'', ''keygen'', ''link'', ''meta'', ''param'', ''source'',
      ''track'', ''wbr'']"

definition rawTextElements :: "string list" where
  "rawTextElements =
     [''style'', ''script'', ''xmp'', ''iframe'', ''noembed'', ''noframes'', ''plaintext'',
      ''noscript'']"

definition escapeText :: "string \<Rightarrow> string" where
  "escapeText t =
     concat (map (\<lambda>c. if c = CHR ''&'' then ''&amp;''
                       else if c = CHR 0xA0 then ''&nbsp;''
                       else if c = CHR ''<'' then ''&lt;''
                       else if c = CHR ''>'' then ''&gt;''
                       else [c]) t)"

definition escapeAttribute :: "string \<Rightarrow> string" where
  "escapeAttribute v =
     concat (map (\<lambda>c. if c = CHR ''&'' then ''&amp;''
                       else if c = CHR 0xA0 then ''&nbsp;''
                       else if c = CHR 0x22 then ''&quot;''
                       else [c]) v)"

definition serializeAttributes :: "(string \<times> string) list \<Rightarrow> string" where
  "serializeAttributes attrs =
     concat (map (\<lambda>(name, v). '' '' @ name @ ''='' @ [CHR 0x22] @ escapeAttribute v @ [CHR 0x22])
               attrs)"

fun serializeNode :: "bool \<Rightarrow> node \<Rightarrow> string" where
  "serializeNode raw (Element i name attrs cs) =
     ''<'' @ name @ serializeAttributes attrs @ ''>'' @
     (if name \<in> set voidElements then []
      else concat (map (serializeNode (name \<in> set rawTextElements)) cs) @
           ''</'' @ name @ ''>'')"
| "serializeNode raw (Template i attrs content) =
     ''<template'' @ serializeAttributes attrs @ ''>'' @
     concat (map (serializeNode False) content) @ ''</template>''"
| "serializeNode raw (Text i content) = (if raw then content else escapeText content)"
| "serializeNode raw (Comment i content) = ''<!--'' @ content @ ''-->''"
| "serializeNode raw (Doctype i name) = ''<!DOCTYPE '' @ name @ ''>''"

definition serialize :: "document \<Rightarrow> string" where
  "serialize doc = concat (map (serializeNode False) doc)"

subsection \<open>The document without its script elements\<close>








section \<open>The process and its environment\<close>

text \<open>
  What the program reads from outside is a record of functions; what it changes is a
  record of state, passed along. \<open>execSync\<close> answers a command with the text of its
  standard output, or with the message of the error it throws. \<open>readLib\<close> is
  \<open>fs.readFileSync\<close> on a file of the directory \<open>libsDir\<close>, \<open>None\<close> when it throws.
  \<open>writeFails\<close> is the message of the error \<open>fs.writeFileSync\<close> throws on a path, if it
  throws there.

  For the headless browser, \<open>domAt base k\<close> is the document built from the markup
  \<open>base\<close>, with its scripts run, as the polling function \<open>check\<close> finds it when it is
  called for the \<open>k\<close>-th time (counting from 0, over both timer chains that call it);
  \<open>now k\<close> is what \<open>Date.now()\<close> returns in that call, \<open>start\<close> what it returned when the
  wait began.
\<close>

record world =
  execSync :: "string \<Rightarrow> string + string"
  libsDir :: string
  readLib :: "string \<Rightarrow> string option"
  writeFails :: "string \<Rightarrow> string option"
  domAt :: "string \<Rightarrow> nat \<Rightarrow> document"
  start :: int
  now :: "nat \<Rightarrow> int"

record process =
  commands :: "string list"
  stdout :: "string list"
  stderr :: "string list"
  files :: "string \<rightharpoonup> string"
  writes :: "string list"

text \<open>
  A function that may end the process returns \<open>Inl code\<close> for \<open>process.exit(code)\<close> and
  \<open>Inr v\<close> for the value it returns.
\<close>

type_synonym 'a result = "(nat + 'a) \<times> process"

definition runCommand :: "world \<Rightarrow> string \<Rightarrow> process \<Rightarrow> (string + string) \<times> process" where
  "runCommand w cmd s = (execSync w cmd, s\<lparr>commands := commands s @ [cmd]\<rparr>)"

definition consoleError :: "string \<Rightarrow> process \<Rightarrow> process" where
  "consoleError line s = s\<lparr>stderr := stderr s @ [line]\<rparr>"

definition consoleLog :: "string \<Rightarrow> process \<Rightarrow> process" where
  "consoleLog line s = s\<lparr>stdout := stdout s @ [line]\<rparr>"

definition getLastCommitHash :: "world \<Rightarrow> process \<Rightarrow> string result" where
  "getLastCommitHash w s =
     (case runCommand w ''git log --oneline -1'' s of
        (Inr out, s') \<Rightarrow> (Inr (trim (takeWhile (\<lambda>c. c \<noteq> CHR '' '') out)), s')
      | (Inl message, s') \<Rightarrow>
          (Inl 1, consoleError (''Error getting last commit hash: '' @ message) s'))"

text \<open>The command lines of \<open>getCommitMessage\<close> and \<open>getCommitDiff\<close>.\<close>

definition messageCommand :: "string \<Rightarrow> string" where
  "messageCommand commit = ''git log -1 --format=%B '' @ commit"

definition diffCommand :: "string \<Rightarrow> string" where
  "diffCommand commit =
     join '' ''
       [''git'',
        ''--no-pager'',
        ''show'',
        ''--no-color'',
        ''--no-ext-diff'',
        ''--unified=3'',
        ''--diff-algorithm=patience'',
        ''-M'',
        ''-C'',
        ''--ignore-cr-at-eol'',
        commit]"

definition getCommitMessage :: "world \<Rightarrow> string \<Rightarrow> process \<Rightarrow> string result" where
  "getCommitMessage w commit s =
     (case runCommand w (messageCommand commit) s of
        (Inr out, s') \<Rightarrow> (Inr (trim out), s')
      | (Inl message, s') \<Rightarrow>
          (Inl 1, consoleError (''Error getting commit message: '' @ message) s'))"

definition getCommitDiff :: "world \<Rightarrow> string \<Rightarrow> process \<Rightarrow> string result" where
  "getCommitDiff w commit s =
     (let cmd = diffCommand commit
      in case runCommand w cmd s of
           (Inr out, s') \<Rightarrow> (Inr out, s')
         | (Inl message, s') \<Rightarrow>
             (Inl 1, consoleError (''Error getting commit diff: '' @ message) s'))"

definition readLibRequired :: "world \<Rightarrow> string \<Rightarrow> process \<Rightarrow> string result" where
  "readLibRequired w file s =
     (case readLib w file of
        Some content \<Rightarrow> (Inr content, s)
      | None \<Rightarrow>
          (Inl 1,
           consoleError
             (''Missing required library: '' @ file @ '' in '' @ libsDir w @ ''.\<newline>'' @
              ''Run: npm run fetch:libs\<newline>'' @
              ''or:  node ./scripts/fetch-libs.js'') s))"

section \<open>The document composer\<close>

text \<open>The fixed text of the template of \<open>generateHtml\<close>, between its gaps.\<close>

definition templateHead :: string where
  \<open>templateHead =
     ''<!DOCTYPE html>\<newline>'' @
     ''<html lang="en">\<newline>'' @
     ''<head>\<newline>'' @
     ''  <meta charset="UTF-8">\<newline>'' @
     ''  <meta name="viewport" content="width=device-width, initial-scale=1.0">\<newline>''\<close>

definition templateStyle :: string where
  \<open>templateStyle =
     ''  <style>\<newline>'' @
     ''    body {\<newline>'' @
     ''      font-family: Arial, sans-serif;\<newline>'' @
     ''      margin: 20px;\<newline>'' @
     ''    }\<newline>'' @
     ''    h1 {\<newline>'' @
     ''      color: #333;\<newline>'' @
     ''    }\<newline>'' @
     ''    .commit-meta {\<newline>'' @
     ''      background: #f6f8fa;\<newline>'' @
     ''      border: 1px solid #d0d7de;\<newline>'' @
     ''      border-radius: 6px;\<newline>'' @
     ''      padding: 12px 16px;\<newline>'' @
     ''      margin-top: 8px;\<newline>'' @
     ''      white-space: pre-wrap; /* preserve newlines in message */\<newline>'' @
     ''    }\<newline>'' @
     ''    #diff-container {\<newline>'' @
     ''      margin-top: 20px;\<newline>'' @
     ''    }\<newline>'' @
     ''  </style>\<newline>'' @
     ''</head>\<newline>'' @
     ''<body>\<newline>''\<close>

definition templateBoot :: string where
  \<open>templateBoot =
     ''  <script>\<newline>'' @
     ''    document.addEventListener('DOMContentLoaded', function() {\<newline>'' @
     ''      const diffString = ''\<close>

definition templateTail :: string where
  \<open>templateTail =
     ''\<newline>'' @
     ''      const targetElement = document.getElementById('diff-container')\<newline>'' @
     ''      const configuration = {\<newline>'' @
     ''        drawFileList: true,\<newline>'' @
     ''        matching: 'lines',\<newline>'' @
     ''        outputFormat: 'side-by-side',\<newline>'' @
     ''        highlight: true,\<newline>'' @
     ''        synchronisedScroll: true,\<newline>'' @
     ''        fileListToggle: true,\<newline>'' @
     ''        fileListStartVisible: false,\<newline>'' @
     ''        fileContentToggle: true,\<newline>'' @
     ''        stickyFileHeaders: true,\<newline>'' @
     ''        colorScheme: 'auto'\<newline>'' @
     ''      }\<newline>'' @
     ''\<newline>'' @
     ''      const diff2htmlUi = new Diff2HtmlUI(targetElement, diffString, configuration)\<newline>'' @
     ''      diff2htmlUi.draw()\<newline>'' @
     ''      diff2htmlUi.highlightCode()\<newline>'' @
     ''      diff2htmlUi.synchronisedScroll()\<newline>'' @
     ''    })\<newline>'' @
     ''  </script>\<newline>'' @
     ''</body>\<newline>'' @
     ''</html>''\<close>

text \<open>
  The page: the template with its seven gaps filled, with the commit (twice), the two
  style sheets, the commit message, the script of the diff viewer and the escaped diff.
\<close>

definition page ::
  "string \<Rightarrow> string \<Rightarrow> string \<Rightarrow> string \<Rightarrow> string \<Rightarrow> string \<Rightarrow> string" where
  \<open>page commit cssHighlight cssDiff2Html message jsDiff2Html diff =
     templateHead @
     ''  <title>Commit '' @ commit @ '' Diff</title>\<newline>'' @
     ''  <style>'' @ cssHighlight @ ''</style>\<newline>'' @
     ''  <style>'' @ cssDiff2Html @ ''</style>\<newline>'' @
     templateStyle @
     ''  <h1>Changes in Commit '' @ commit @ ''</h1>\<newline>'' @
     ''  <div class="commit-meta" id="commit-message">'' @ message @ ''</div>\<newline>'' @
     ''  <div id="diff-container"></div>\<newline>'' @
     ''  <script>'' @ jsDiff2Html @ ''</script>\<newline>'' @
     templateBoot @ [CHR 0x27] @ diff @ [CHR 0x27] @ templateTail\<close>

text \<open>
  The template literal itself: it opens with a line break before the page and closes
  with a line break and two blanks behind it.
\<close>

definition template ::
  "string \<Rightarrow> string \<Rightarrow> string \<Rightarrow> string \<Rightarrow> string \<Rightarrow> string \<Rightarrow> string" where
  \<open>template commit cssHighlight cssDiff2Html message jsDiff2Html diff =
     ''\<newline>'' @
     page commit cssHighlight cssDiff2Html message jsDiff2Html diff @
     ''\<newline>'' @
     ''  ''\<close>

definition generateHtml :: "world \<Rightarrow> string \<Rightarrow> string \<Rightarrow> string \<Rightarrow> process \<Rightarrow> string result" where
  "generateHtml w commit commitMessage diffOutput s =
     (let escapedMessage = escapeHtml commitMessage
      in case readLibRequired w ''highlightjs-github.min.css'' s of
           (Inl code, s1) \<Rightarrow> (Inl code, s1)
         | (Inr cssHighlight, s1) \<Rightarrow>
        (case readLibRequired w ''diff2html.min.css'' s1 of
           (Inl code, s2) \<Rightarrow> (Inl code, s2)
         | (Inr cssDiff2Html, s2) \<Rightarrow>
        (case readLibRequired w ''diff2html-ui.min.js'' s2 of
           (Inl code, s3) \<Rightarrow> (Inl code, s3)
         | (Inr jsDiff2Html, s3) \<Rightarrow>
             (Inr (trim (template commit
                     (safeInline cssHighlight ''style'')
                     (safeInline cssDiff2Html ''style'')
                     (if escapedMessage \<noteq> [] then escapedMessage else ''No commit message'')
                     (safeInline jsDiff2Html ''script'')
                     (escapedDiff diffOutput))),
              s3))))"

section \<open>The static renderer\<close>

text \<open>
  The test of \<open>check\<close>: the element \<open>diff-container\<close> is there and has a child element.
\<close>

definition rendered :: "document \<Rightarrow> bool" where
  "rendered doc \<longleftrightarrow>
     (case getElementById doc ''diff-container'' of
        None \<Rightarrow> False
      | Some el \<Rightarrow> length (children el) > 0)"

text \<open>
  The polling of \<open>check\<close>, from its \<open>k\<close>-th call on: the promise resolves in the first
  call that finds rendered content or more than 5000 ms gone; otherwise the call sets
  a timer for the next one. The result is the number of the call that resolves, and
  \<open>None\<close> when no call ever does.
\<close>

partial_function (option) check :: "world \<Rightarrow> string \<Rightarrow> nat \<Rightarrow> nat option" where
  "check w base k =
     (if rendered (domAt w base k) then Some k
      else if now w k - start w > 5000 then Some k
      else check w base (Suc k))"

definition generateStaticHtml ::
  "world \<Rightarrow> string \<Rightarrow> string \<Rightarrow> string \<Rightarrow> process \<Rightarrow> string result option" where
  "generateStaticHtml w commit commitMessage diffOutput s =
     (case generateHtml w commit commitMessage diffOutput s of
        (Inl code, s') \<Rightarrow> Some (Inl code, s')
      | (Inr base, s') \<Rightarrow>
          (case check w base 0 of
             None \<Rightarrow> None
           | Some k \<Rightarrow> Some (Inr (serialize (stripScripts (domAt w base k))), s')))"

section \<open>The run\<close>

text \<open>\<open>positional[0] || getLastCommitHash()\<close>: an empty first argument counts as none.\<close>

definition commitOf :: "world \<Rightarrow> string list \<Rightarrow> process \<Rightarrow> string result" where
  "commitOf w positional s =
     (case positional of
        [] \<Rightarrow> getLastCommitHash w s
      | a # rest \<Rightarrow> if a \<noteq> [] then (Inr a, s) else getLastCommitHash w s)"

text \<open>
  \<open>fs.writeFileSync\<close>, with the handler of \<open>main().catch\<close> for the error it may throw.
\<close>

definition writeFileSync :: "world \<Rightarrow> string \<Rightarrow> string \<Rightarrow> process \<Rightarrow> unit result" where
  "writeFileSync w path content s =
     (case writeFails w path of
        Some message \<Rightarrow> (Inl 1, consoleError message s)
      | None \<Rightarrow>
          (Inr (), s\<lparr>files := (files s)(path \<mapsto> content), writes := writes s @ [path]\<rparr>))"

text \<open>
  \<open>main\<close> with the arguments after the script name. The result is the exit status with
  the final state, and \<open>None\<close> when the run never ends.
\<close>

definition main :: "world \<Rightarrow> string list \<Rightarrow> process \<Rightarrow> (nat \<times> process) option" where
  "main w args s =
     (let isStatic = ''--static'' \<in> set args;
          positional = filter (\<lambda>a. \<not> startsWith a ''-'') args
      in case commitOf w positional s of
           (Inl code, s0) \<Rightarrow> Some (code, s0)
         | (Inr commit, s0) \<Rightarrow>
        (let s1 = consoleLog (''Generating '' @ (if isStatic then ''static '' else '''') @
                              ''diff for commit: '' @ commit) s0
         in case getCommitMessage w commit s1 of
              (Inl code, s2) \<Rightarrow> Some (code, s2)
            | (Inr commitMessage, s2) \<Rightarrow>
        (case getCommitDiff w commit s2 of
              (Inl code, s3) \<Rightarrow> Some (code, s3)
            | (Inr diffOutput, s3) \<Rightarrow>
        (case (if isStatic then generateStaticHtml w commit commitMessage diffOutput s3
               else Some (generateHtml w commit commitMessage diffOutput s3)) of
              None \<Rightarrow> None
            | Some (Inl code, s4) \<Rightarrow> Some (code, s4)
            | Some (Inr html, s4) \<Rightarrow>
        (let outputFile = ''commit-'' @ commit @ ''-diff.html''
         in case writeFileSync w outputFile html s4 of
              (Inl code, s5) \<Rightarrow> Some (code, s5)
            | (Inr u, s5) \<Rightarrow>
                Some (0, consoleLog ((if isStatic then ''Static (no JS) '' else '''') @
                                     ''HTML file created: '' @ outputFile) s5))))))"

section \<open>Sample environments\<close>

text \<open>Concrete documents, environments and states, on which the theorems are tried.\<close>

definition sampleDocument :: document where
  "sampleDocument =
     [Element 0 ''html'' []
        [Element 1 ''head'' [] [Element 2 ''script'' [] [Text 3 ''boot()'']],
         Element 4 ''body'' []
           [Element 5 ''div'' [(''id'', ''diff-container'')]
              [Element 6 ''table'' [] [],
               Element 7 ''script'' [] [Element 8 ''script'' [] []]]]]]"



definition sampleWorld :: world where
  "sampleWorld =
     \<lparr>execSync = (\<lambda>cmd. Inr ''  Fix typo\<newline>''),
      libsDir = ''/opt/libs'',
      readLib = (\<lambda>file. Some ''x''),
      writeFails = (\<lambda>path. None),
      domAt = (\<lambda>base k. sampleDocument),
      start = 0,
      now = (\<lambda>k. 20 + 25 * int k)\<rparr>"

text \<open>The same with a version-control tool that fails on every command.\<close>

definition failingWorld :: world where
  "failingWorld = sampleWorld\<lparr>execSync := (\<lambda>cmd. Inl ''fatal: bad revision'')\<rparr>"

text \<open>
  The same with a diff viewer that never renders and timers that fire 5 ms late.
\<close>

definition slowWorld :: world where
  "slowWorld = sampleWorld\<lparr>domAt := (\<lambda>base k. []), now := (\<lambda>k. 20 + 30 * int k)\<rparr>"

text \<open>
  The same with a diff viewer that never renders and two timer chains whose polls fall
  on the same clock readings, two by two.
\<close>

definition twoChainsWorld :: world where
  "twoChainsWorld =
     sampleWorld\<lparr>domAt := (\<lambda>base k. []), now := (\<lambda>k. 20 + 25 * int (k div 2))\<rparr>"


definition freshProcess :: process where
  "freshProcess =
     \<lparr>commands = [], stdout = [], stderr = [],
      files = [''commit-abc1234-diff.html'' \<mapsto> ''old''], writes = []\<rparr>"

section \<open>Properties of the escaping functions\<close>

subsection \<open>Replacing single code units\<close>

lemma replaceAll_single:
  "replaceAll False [p] rep s = concat (map (\<lambda>c. if c = p then rep else [c]) s)"
  by (induction s) (auto simp: unitMatches_def)

lemma concat_map_concat_map:
  "concat (map f (concat (map g s))) = concat (map (\<lambda>c. concat (map f (g c))) s)"
  by (induction s) auto

subsection \<open>The commit message as element content\<close>

lemma escapeHtml_entity: "escapeHtml s = concat (map entity s)"
  unfolding escapeHtml_def replaceAll_single concat_map_concat_map
  by (rule arg_cong [where f = concat], rule map_cong [OF refl]) (simp add: entity_def)

lemma decodeHtmlText_entity:
  "decodeHtmlText (entity c @ t) = map_option ((#) c) (decodeHtmlText t)"
  by (simp add: entity_def)

lemma decodeHtmlText_escapeHtml: "decodeHtmlText (escapeHtml s) = Some s"
  unfolding escapeHtml_entity
  by (induction s) (simp_all add: decodeHtmlText_entity del: decodeHtmlText.simps(2))

lemma entity_no_markup:
  "x \<in> set (entity c) \<Longrightarrow>
     x \<noteq> CHR ''<'' \<and> x \<noteq> CHR ''>'' \<and> x \<noteq> CHR 0x22 \<and> x \<noteq> CHR 0x27"
  by (auto simp: entity_def split: if_splits)

lemma entity_amp_position:
  "i < length (entity c) \<Longrightarrow> entity c ! i = CHR ''&'' \<Longrightarrow> i = 0 \<and> entity c \<in> set entities"
  by (auto simp: entity_def entities_def nth_Cons' less_Suc_eq split: if_splits)

lemma startsEntity_append: "e \<in> set entities \<Longrightarrow> startsEntity (e @ t)"
  by (auto simp: startsEntity_def list_ex_iff intro!: bexI [of _ e])

lemma amp_starts_entity:
  "i < length (concat (map entity s)) \<Longrightarrow> concat (map entity s) ! i = CHR ''&''
     \<Longrightarrow> startsEntity (drop i (concat (map entity s)))"
proof (induction s arbitrary: i)
  case Nil
  then show ?case by simp
next
  case (Cons c s)
  show ?case
  proof (cases "i < length (entity c)")
    case True
    with Cons.prems have "i = 0 \<and> entity c \<in> set entities"
      by (intro entity_amp_position) (simp_all add: nth_append)
    then show ?thesis by (simp add: startsEntity_append)
  next
    case False
    with Cons.prems Cons.IH [of "i - length (entity c)"] show ?thesis
      by (simp add: nth_append)
  qed
qed

text \<open>
  C3. For every commit message, \<open>escapeHtml\<close> writes the entity of each of the five
  characters \<open>&\<close>, \<open><\<close>, \<open>>\<close>, the double and the single quote, and copies every other
  unit: the five replacements in a row, \<open>&\<close> first, come to one pass that escapes no
  entity a second time. The result holds none of \<open><\<close>, \<open>>\<close> and the two quotes, each
  \<open>&\<close> in it starts one of the five entities, and read as element content it shows
  the message as text, unit for unit.
\<close>

theorem escapeHtml_literal_text:
  "escapeHtml str = concat (map entity str)
   \<and> (\<forall>x \<in> set (escapeHtml str).
         x \<noteq> CHR ''<'' \<and> x \<noteq> CHR ''>'' \<and> x \<noteq> CHR 0x22 \<and> x \<noteq> CHR 0x27)
   \<and> (\<forall>i < length (escapeHtml str). escapeHtml str ! i = CHR ''&''
         \<longrightarrow> startsEntity (drop i (escapeHtml str)))
   \<and> decodeHtmlText (escapeHtml str) = Some str"
  using amp_starts_entity [of _ str] decodeHtmlText_escapeHtml [of str]
  by (auto simp: escapeHtml_entity dest: entity_no_markup)

theorem escapeHtml_literal_text_witness:
  \<open>escapeHtml ''<b>&'' = ''&lt;b&gt;&amp;''
   \<and> escapeHtml ''<b>&'' ! 5 = CHR ''&''
   \<and> startsEntity (drop 5 (escapeHtml ''<b>&''))
   \<and> decodeHtmlText ''&lt;b&gt;&amp;'' = Some ''<b>&''\<close>
proof -
  have e: \<open>escapeHtml ''<b>&'' = ''&lt;b&gt;&amp;''\<close>
    by (simp add: escapeHtml_entity entity_def)
  from escapeHtml_literal_text [of \<open>''<b>&''\<close>]
  have \<open>(\<forall>i < length (escapeHtml ''<b>&''). escapeHtml ''<b>&'' ! i = CHR ''&''
           \<longrightarrow> startsEntity (drop i (escapeHtml ''<b>&'')))
        \<and> decodeHtmlText (escapeHtml ''<b>&'') = Some ''<b>&''\<close>
    by blast
  then have \<open>(5 < length (escapeHtml ''<b>&'') \<longrightarrow> escapeHtml ''<b>&'' ! 5 = CHR ''&''
           \<longrightarrow> startsEntity (drop 5 (escapeHtml ''<b>&'')))
        \<and> decodeHtmlText (escapeHtml ''<b>&'') = Some ''<b>&''\<close>
    by blast
  with e show ?thesis by simp
qed

subsection \<open>The diff as a string literal\<close>

text \<open>What the four replacements of \<open>escapedDiff\<close> write for one code unit.\<close>

lemma escapedDiff_units:
  "escapedDiff s =
     concat (map (\<lambda>c. if c = backslash then [backslash, backslash]
                       else if c = CHR 0x27 then [backslash, CHR 0x27]
                       else if c = CHR 0x0A then [backslash, CHR ''n'']
                       else if c = CHR 0x0D then [backslash, CHR ''r'']
                       else [c]) s)"
  unfolding escapedDiff_def replaceAll_single concat_map_concat_map
  by (rule arg_cong [where f = concat], rule map_cong [OF refl]) (simp add: backslash_def)

lemma decodeSingleQuoted_plain:
  "c \<noteq> backslash \<Longrightarrow> c \<noteq> CHR 0x27 \<Longrightarrow> c \<noteq> CHR 0x0A \<Longrightarrow> c \<noteq> CHR 0x0D
     \<Longrightarrow> decodeSingleQuoted (c # t) = map_option ((#) c) (decodeSingleQuoted t)"
  by (cases t) simp_all

lemma decodeSingleQuoted_escapedDiff: "decodeSingleQuoted (escapedDiff s) = Some s"
  unfolding escapedDiff_units
  by (induction s) (simp_all add: decodeSingleQuoted_plain escapeChar_def backslash_def)

lemma escapedDiff_one_line:
  "CHR 0x0A \<notin> set (escapedDiff s) \<and> CHR 0x0D \<notin> set (escapedDiff s)"
  unfolding escapedDiff_units by (induction s) (simp_all add: backslash_def)

text \<open>
  C1. For every diff text, the text that \<open>generateHtml\<close> puts between the single quotes
  (backslash, single quote, line feed and carriage return replaced, in that order) is
  the inside of a single-quoted string literal on one line, and the value of that
  literal is the diff text itself.
\<close>

theorem escapedDiff_round_trip:
  "decodeSingleQuoted (escapedDiff diffOutput) = Some diffOutput
   \<and> CHR 0x0A \<notin> set (escapedDiff diffOutput)
   \<and> CHR 0x0D \<notin> set (escapedDiff diffOutput)"
  using decodeSingleQuoted_escapedDiff [of diffOutput] escapedDiff_one_line [of diffOutput]
  by simp

theorem escapedDiff_round_trip_witness:
  "escapedDiff [CHR ''a'', backslash, CHR ''n'', CHR 0x27, CHR 0x0D, CHR 0x0A]
     = [CHR ''a'', backslash, backslash, CHR ''n'', backslash, CHR 0x27,
        backslash, CHR ''r'', backslash, CHR ''n'']
   \<and> decodeSingleQuoted
        [CHR ''a'', backslash, backslash, CHR ''n'', backslash, CHR 0x27,
         backslash, CHR ''r'', backslash, CHR ''n'']
     = Some [CHR ''a'', backslash, CHR ''n'', CHR 0x27, CHR 0x0D, CHR 0x0A]"
proof -
  have e: "escapedDiff [CHR ''a'', backslash, CHR ''n'', CHR 0x27, CHR 0x0D, CHR 0x0A]
     = [CHR ''a'', backslash, backslash, CHR ''n'', backslash, CHR 0x27,
        backslash, CHR ''r'', backslash, CHR ''n'']"
    by (simp add: escapedDiff_units backslash_def)
  from escapedDiff_round_trip [of "[CHR ''a'', backslash, CHR ''n'', CHR 0x27, CHR 0x0D, CHR 0x0A]"]
  show ?thesis unfolding e by simp
qed

subsection \<open>Closing tags in inlined assets\<close>

text \<open>
  A match in the output of a replacement would have been a match in the input, as long as
  it cannot run into the head of a replacement text.
\<close>

lemma matchesAt_replaceAll_prefix:
  "matchesAt ic ps (replaceAll ic pat (a # rep') cs) \<Longrightarrow> \<forall>p\<in>set ps. \<not> unitMatches ic p a
     \<Longrightarrow> matchesAt ic ps cs"
proof (induction ps arbitrary: cs)
  case Nil
  then show ?case by simp
next
  case (Cons p ps)
  show ?case
  proof (cases cs)
    case Nil
    with Cons.prems show ?thesis by simp
  next
    case (Cons c cs')
    with Cons.prems Cons.IH [of cs'] show ?thesis
      by (auto split: if_splits)
  qed
qed

lemma occurs_append:
  "occurs ic pat (xs @ t) \<longleftrightarrow>
     (\<exists>k<length xs. matchesAt ic pat (drop k xs @ t)) \<or> occurs ic pat t"
proof (induction xs)
  case Nil
  then show ?case by simp
next
  case (Cons x xs)
  have "(\<exists>k<Suc (length xs). matchesAt ic pat (drop k (x # xs) @ t)) \<longleftrightarrow>
        matchesAt ic pat (x # xs @ t) \<or> (\<exists>k<length xs. matchesAt ic pat (drop k xs @ t))"
    by (auto simp: less_Suc_eq_0_disj)
  with Cons show ?case by auto
qed

lemma replaceAll_no_occurrence:
  assumes pat: "pat = p # ps" and rep: "rep = a # rep'"
    and tail: "\<forall>q\<in>set ps. \<not> unitMatches ic q a"
    and inside: "\<And>t k. k < length rep \<Longrightarrow> \<not> matchesAt ic pat (drop k rep @ t)"
  shows "\<not> occurs ic pat (replaceAll ic pat rep s)"
proof (induction "length s" arbitrary: s rule: less_induct)
  case less
  show ?case
  proof (cases s)
    case Nil
    then show ?thesis by (simp add: pat)
  next
    case (Cons c cs)
    show ?thesis
    proof (cases "matchesAt ic pat (c # cs)")
      case True
      have "length (drop (length pat) (c # cs)) < length s"
        by (simp add: Cons pat)
      from less [OF this] inside True show ?thesis
        by (simp add: Cons pat occurs_append)
    next
      case False
      have no_head: "\<not> matchesAt ic pat (c # replaceAll ic pat rep cs)"
      proof
        assume "matchesAt ic pat (c # replaceAll ic pat rep cs)"
        then have "unitMatches ic p c" and "matchesAt ic ps (replaceAll ic pat (a # rep') cs)"
          by (simp_all add: pat rep)
        with tail have "matchesAt ic pat (c # cs)"
          by (simp add: pat matchesAt_replaceAll_prefix)
        with False show False ..
      qed
      have "length cs < length s" by (simp add: Cons)
      from less [OF this] no_head False show ?thesis
        by (simp add: Cons)
    qed
  qed
qed

lemma occurs_drop: "occurs ic pat (drop k s) \<Longrightarrow> occurs ic pat s"
proof (induction s arbitrary: k)
  case Nil
  then show ?case by simp
next
  case (Cons c cs)
  then show ?case by (cases k) auto
qed

text \<open>
  A match of a second pattern in the output of a replacement was a match in the input,
  as long as it cannot touch a replacement text.
\<close>

lemma replaceAll_occurs_back:
  assumes pat': "pat' = p # ps" and rep: "rep = a # rep'"
    and tail: "\<forall>q\<in>set ps. \<not> unitMatches ic q a"
    and inside: "\<And>t k. k < length rep \<Longrightarrow> \<not> matchesAt ic pat' (drop k rep @ t)"
  shows "occurs ic pat' (replaceAll ic pat rep s) \<Longrightarrow> occurs ic pat' s"
proof (induction "length s" arbitrary: s rule: less_induct)
  case less
  show ?case
  proof (cases s)
    case Nil
    with less.prems show ?thesis by simp
  next
    case (Cons c cs)
    show ?thesis
    proof (cases "pat \<noteq> [] \<and> matchesAt ic pat (c # cs)")
      case True
      then have shorter: "length (drop (length pat) s) < length s"
        by (cases pat) (simp_all add: Cons)
      from less.prems True inside
      have "occurs ic pat' (replaceAll ic pat rep (drop (length pat) s))"
        by (auto simp: Cons occurs_append)
      with less.hyps [OF shorter] show ?thesis
        by (blast intro: occurs_drop)
    next
      case False
      with less.prems
      have "matchesAt ic pat' (c # replaceAll ic pat rep cs) \<or> occurs ic pat' (replaceAll ic pat rep cs)"
        by (auto simp: Cons)
      then show ?thesis
      proof
        assume "matchesAt ic pat' (c # replaceAll ic pat rep cs)"
        then have "unitMatches ic p c" and "matchesAt ic ps (replaceAll ic pat (a # rep') cs)"
          by (simp_all add: pat' rep)
        with tail have "matchesAt ic pat' (c # cs)"
          by (simp add: pat' matchesAt_replaceAll_prefix)
        then show ?thesis by (simp add: Cons)
      next
        assume "occurs ic pat' (replaceAll ic pat rep cs)"
        moreover have "length cs < length s" by (simp add: Cons)
        ultimately have "occurs ic pat' cs" by (rule less.hyps [rotated])
        then show ?thesis by (simp add: Cons)
      qed
    qed
  qed
qed

text \<open>
  The output is the input with some matches replaced, and nothing else changed.
\<close>

lemma matchesAt_take:
  "matchesAt ic pat s \<Longrightarrow>
     matchesAt ic pat (take (length pat) s) \<and> length (take (length pat) s) = length pat"
  by (induction ic pat s rule: matchesAt.induct) simp_all

lemma replaceAll_parts:
  "\<exists>parts rest.
     s = joinParts parts rest
     \<and> replaceAll ic pat rep s = joinParts (map (\<lambda>(t, m). (t, rep)) parts) rest
     \<and> (\<forall>(t, m)\<in>set parts. matchesAt ic pat m \<and> length m = length pat)"
proof -
  define P where "P s parts rest \<longleftrightarrow>
     s = joinParts parts rest
     \<and> replaceAll ic pat rep s = joinParts (map (\<lambda>(t, m). (t, rep)) parts) rest
     \<and> (\<forall>(t, m)\<in>set parts. matchesAt ic pat m \<and> length m = length pat)"
    for s parts rest
  have "\<exists>parts rest. P s parts rest"
  proof (induction "length s" arbitrary: s rule: less_induct)
    case less
    show ?case
    proof (cases s)
      case Nil
      then have "P s [] []" by (simp add: P_def)
      then show ?thesis by blast
    next
      case (Cons c cs)
      show ?thesis
      proof (cases "pat \<noteq> [] \<and> matchesAt ic pat (c # cs)")
        case True
        obtain m s2 where m: "m = take (length pat) s" and s2: "s2 = drop (length pat) s"
          by blast
        then have split: "s = m @ s2" by simp
        from True have "length s2 < length s"
          by (cases pat) (simp_all add: Cons s2)
        from less [OF this] obtain parts rest where ih: "P s2 parts rest"
          by blast
        from True have "matchesAt ic pat s"
          by (simp add: Cons)
        then have "matchesAt ic pat m \<and> length m = length pat"
          unfolding m by (rule matchesAt_take)
        moreover from True have "replaceAll ic pat rep s = rep @ replaceAll ic pat rep s2"
          by (simp add: Cons s2)
        ultimately have "P s (([], m) # parts) rest"
          using ih split by (auto simp: P_def)
        then show ?thesis by blast
      next
        case False
        have "length cs < length s" by (simp add: Cons)
        from less [OF this] obtain parts rest where ih: "P cs parts rest"
          by blast
        from False have out: "replaceAll ic pat rep s = c # replaceAll ic pat rep cs"
          by (auto simp: Cons)
        show ?thesis
        proof (cases parts)
          case Nil
          with ih out \<open>s = c # cs\<close> have "P s [] (c # rest)"
            by (auto simp: P_def)
          then show ?thesis by blast
        next
          case (Cons tm ps)
          obtain t m where "tm = (t, m)" by (cases tm)
          with ih out Cons \<open>s = c # cs\<close> have "P s ((c # t, m) # ps) rest"
            by (auto simp: P_def)
          then show ?thesis by blast
        qed
      qed
    qed
  qed
  then show ?thesis unfolding P_def .
qed

lemma script_no_occurrence:
  "\<not> occurs True ''</script>''
       (replaceAll True ''</script>'' (''<'' @ [backslash] @ ''/script>'') s)"
  by (rule replaceAll_no_occurrence [where p = "CHR ''<''" and ps = "''/script>''"
        and a = "CHR ''<''" and rep' = "backslash # ''/script>''"])
     (auto simp: less_Suc_eq unitMatches_def canonicalize_def backslash_def)

lemma style_no_occurrence:
  "\<not> occurs True ''</style>''
       (replaceAll True ''</style>'' (''<'' @ [backslash] @ ''/style>'') s)"
  by (rule replaceAll_no_occurrence [where p = "CHR ''<''" and ps = "''/style>''"
        and a = "CHR ''<''" and rep' = "backslash # ''/style>''"])
     (auto simp: less_Suc_eq unitMatches_def canonicalize_def backslash_def)

lemma safeInline_replaceAll:
  "safeInline content ''script''
     = replaceAll True ''</script>'' (''<'' @ [backslash] @ ''/script>'') content"
  "safeInline content ''style''
     = replaceAll True ''</style>'' (''<'' @ [backslash] @ ''/style>'') content"
  by (simp_all add: safeInline_def)

lemma safeInline_no_occurrence:
  "\<not> occurs True ''</script>'' (safeInline content ''script'')"
  "\<not> occurs True ''</style>'' (safeInline content ''style'')"
  using script_no_occurrence [of content] style_no_occurrence [of content]
  by (simp_all add: safeInline_replaceAll)

lemma script_closes_back:
  assumes "d \<in> set tagEndSpellings"
    and "occurs True (''</script'' @ [d])
           (replaceAll True ''</script>'' (''<'' @ [backslash] @ ''/script>'') s)"
  shows "occurs True (''</script'' @ [d]) s"
proof (rule replaceAll_occurs_back [where p = "CHR ''<''" and ps = "''/script'' @ [d]"
      and a = "CHR ''<''" and rep' = "backslash # ''/script>''", OF _ _ _ _ assms(2)])
  show "\<forall>q\<in>set (''/script'' @ [d]). \<not> unitMatches True q (CHR ''<'')"
    using assms(1) by (auto simp: tagEndSpellings_def unitMatches_def canonicalize_def)
  show "\<not> matchesAt True (''</script'' @ [d]) (drop k (''<'' @ [backslash] @ ''/script>'') @ t)"
    if "k < length (''<'' @ [backslash] @ ''/script>'')" for t k
    using that by (auto simp: less_Suc_eq unitMatches_def canonicalize_def backslash_def)
qed simp_all

lemma style_closes_back:
  assumes "d \<in> set tagEndSpellings"
    and "occurs True (''</style'' @ [d])
           (replaceAll True ''</style>'' (''<'' @ [backslash] @ ''/style>'') s)"
  shows "occurs True (''</style'' @ [d]) s"
proof (rule replaceAll_occurs_back [where p = "CHR ''<''" and ps = "''/style'' @ [d]"
      and a = "CHR ''<''" and rep' = "backslash # ''/style>''", OF _ _ _ _ assms(2)])
  show "\<forall>q\<in>set (''/style'' @ [d]). \<not> unitMatches True q (CHR ''<'')"
    using assms(1) by (auto simp: tagEndSpellings_def unitMatches_def canonicalize_def)
  show "\<not> matchesAt True (''</style'' @ [d]) (drop k (''<'' @ [backslash] @ ''/style>'') @ t)"
    if "k < length (''<'' @ [backslash] @ ''/style>'')" for t k
    using that by (auto simp: less_Suc_eq unitMatches_def canonicalize_def backslash_def)
qed simp_all

lemma safeInline_closes:
  "closesElement ''script'' (safeInline content ''script'')
     \<Longrightarrow> list_ex (\<lambda>d. occurs True (''</script'' @ [d]) content) tagEndSpellings"
  "closesElement ''style'' (safeInline content ''style'')
     \<Longrightarrow> list_ex (\<lambda>d. occurs True (''</style'' @ [d]) content) tagEndSpellings"
proof -
  assume "closesElement ''script'' (safeInline content ''script'')"
  then obtain d where d: "d \<in> set tagEndSpellings \<or> d = CHR ''>''"
    and o: "occurs True (''</script'' @ [d]) (safeInline content ''script'')"
    by (auto simp: closesElement_def list_ex_iff)
  from o safeInline_no_occurrence(1) [of content] have "d \<noteq> CHR ''>''"
    by auto
  with d have "d \<in> set tagEndSpellings" by simp
  moreover from this o have "occurs True (''</script'' @ [d]) content"
    unfolding safeInline_replaceAll by (rule script_closes_back)
  ultimately show "list_ex (\<lambda>d. occurs True (''</script'' @ [d]) content) tagEndSpellings"
    unfolding list_ex_iff by blast
next
  assume "closesElement ''style'' (safeInline content ''style'')"
  then obtain d where d: "d \<in> set tagEndSpellings \<or> d = CHR ''>''"
    and o: "occurs True (''</style'' @ [d]) (safeInline content ''style'')"
    by (auto simp: closesElement_def list_ex_iff)
  from o safeInline_no_occurrence(2) [of content] have "d \<noteq> CHR ''>''"
    by auto
  with d have "d \<in> set tagEndSpellings" by simp
  moreover from this o have "occurs True (''</style'' @ [d]) content"
    unfolding safeInline_replaceAll by (rule style_closes_back)
  ultimately show "list_ex (\<lambda>d. occurs True (''</style'' @ [d]) content) tagEndSpellings"
    unfolding list_ex_iff by blast
qed

lemma safeInline_parts:
  "\<exists>parts rest.
     content = joinParts parts rest
     \<and> safeInline content ''script''
         = joinParts (map (\<lambda>(t, m). (t, ''<'' @ [backslash] @ ''/script>'')) parts) rest
     \<and> (\<forall>(t, m)\<in>set parts. matchesAt True ''</script>'' m \<and> length m = length ''</script>'')"
  "\<exists>parts rest.
     content = joinParts parts rest
     \<and> safeInline content ''style''
         = joinParts (map (\<lambda>(t, m). (t, ''<'' @ [backslash] @ ''/style>'')) parts) rest
     \<and> (\<forall>(t, m)\<in>set parts. matchesAt True ''</style>'' m \<and> length m = length ''</style>'')"
  unfolding safeInline_replaceAll by (rule replaceAll_parts)+

text \<open>
  C2, as the claim states it, fails. An asset that holds \<open></script>\<close> and, further on,
  the same end tag with a blank before \<open>>\<close>: \<open>safeInline\<close> escapes the first and leaves the
  second, which ends the enclosing \<open>script\<close> element all the same. And an end tag in
  capitals comes out in lower case, so the asset is not there as it was.
\<close>

theorem safeInline_leaves_other_spelling:
  "occurs True ''</script>'' ''a</script>b</script >c''
   \<and> safeInline ''a</script>b</script >c'' ''script''
       = ''a<'' @ [backslash] @ ''/script>b</script >c''
   \<and> closesElement ''script'' (safeInline ''a</script>b</script >c'' ''script'')
   \<and> \<not> occurs False ''<!--'' (safeInline ''a</script>b</script >c'' ''script'')
   \<and> safeInline ''</SCRIPT>'' ''script'' = ''<'' @ [backslash] @ ''/script>''"
  by (simp add: safeInline_def closesElement_def tagEndSpellings_def unitMatches_def
      canonicalize_def backslash_def)

text \<open>
  C2, amended. For every asset text, the output of \<open>safeInline\<close> with the kind \<open>script\<close>
  holds no \<open></script>\<close> in any letter case, and with the kind \<open>style\<close> no \<open></style>\<close> in
  any letter case. The output is the asset with each of these sequences replaced by
  the escaped tag in lower case, \<open><\<close>, a backslash and \<open>/script>\<close> or \<open>/style>\<close>, and
  everything else left as it was, unit for unit. So the enclosing element is not ended
  by the output unless the asset holds the end tag in another spelling, with white
  space or \<open>/\<close> behind the name, which \<open>safeInline\<close> leaves as it is.
\<close>

theorem safeInline_escapes_closing_tag:
  "\<not> occurs True ''</script>'' (safeInline content ''script'')
   \<and> \<not> occurs True ''</style>'' (safeInline content ''style'')
   \<and> (\<exists>parts rest.
         content = joinParts parts rest
         \<and> safeInline content ''script''
             = joinParts (map (\<lambda>(t, m). (t, ''<'' @ [backslash] @ ''/script>'')) parts) rest
         \<and> (\<forall>(t, m)\<in>set parts.
               matchesAt True ''</script>'' m \<and> length m = length ''</script>''))
   \<and> (\<exists>parts rest.
         content = joinParts parts rest
         \<and> safeInline content ''style''
             = joinParts (map (\<lambda>(t, m). (t, ''<'' @ [backslash] @ ''/style>'')) parts) rest
         \<and> (\<forall>(t, m)\<in>set parts.
               matchesAt True ''</style>'' m \<and> length m = length ''</style>''))
   \<and> (closesElement ''script'' (safeInline content ''script'') \<longrightarrow>
        list_ex (\<lambda>d. occurs True (''</script'' @ [d]) content) tagEndSpellings)
   \<and> (closesElement ''style'' (safeInline content ''style'') \<longrightarrow>
        list_ex (\<lambda>d. occurs True (''</style'' @ [d]) content) tagEndSpellings)"
proof (intro conjI impI)
  show "\<not> occurs True ''</script>'' (safeInline content ''script'')"
    by (rule safeInline_no_occurrence)
  show "\<not> occurs True ''</style>'' (safeInline content ''style'')"
    by (rule safeInline_no_occurrence)
qed (rule safeInline_parts safeInline_closes; assumption?)+

theorem safeInline_escapes_closing_tag_witness:
  "occurs True ''</script>'' ''a</SCRIPT>b''
   \<and> safeInline ''a</SCRIPT>b'' ''script'' = ''a<'' @ [backslash] @ ''/script>b''
   \<and> ''a</SCRIPT>b'' = joinParts [(''a'', ''</SCRIPT>'')] ''b''
   \<and> \<not> occurs True ''</script>'' (''a<'' @ [backslash] @ ''/script>b'')
   \<and> \<not> list_ex (\<lambda>d. occurs True (''</script'' @ [d]) ''a</SCRIPT>b'') tagEndSpellings
   \<and> \<not> closesElement ''script'' (''a<'' @ [backslash] @ ''/script>b'')
   \<and> closesElement ''script'' (safeInline ''x</script >'' ''script'')
   \<and> list_ex (\<lambda>d. occurs True (''</script'' @ [d]) ''x</script >'') tagEndSpellings"
proof -
  have e: "safeInline ''a</SCRIPT>b'' ''script'' = ''a<'' @ [backslash] @ ''/script>b''"
    by (simp add: safeInline_def unitMatches_def canonicalize_def)
  have o: "occurs True ''</script>'' ''a</SCRIPT>b''"
    by (simp add: unitMatches_def canonicalize_def)
  have n: "\<not> list_ex (\<lambda>d. occurs True (''</script'' @ [d]) ''a</SCRIPT>b'') tagEndSpellings"
    by (simp add: tagEndSpellings_def unitMatches_def canonicalize_def)
  have c: "closesElement ''script'' (safeInline ''x</script >'' ''script'')"
    by (simp add: safeInline_def closesElement_def tagEndSpellings_def unitMatches_def
        canonicalize_def)
  from safeInline_escapes_closing_tag [of "''a</SCRIPT>b''"] n
  have "\<not> occurs True ''</script>'' (safeInline ''a</SCRIPT>b'' ''script'')
      \<and> \<not> closesElement ''script'' (safeInline ''a</SCRIPT>b'' ''script'')"
    by blast
  moreover from safeInline_escapes_closing_tag [of "''x</script >''"] c
  have "list_ex (\<lambda>d. occurs True (''</script'' @ [d]) ''x</script >'') tagEndSpellings"
    by blast
  ultimately show ?thesis
    using e o n c by simp
qed

section \<open>Properties of the static renderer\<close>

subsection \<open>Stripping the scripts\<close>


















lemma generateStaticHtml_Inr:
  assumes "generateStaticHtml w commit commitMessage diffOutput s = Some (Inr html, s')"
  shows "\<exists>base k. generateHtml w commit commitMessage diffOutput s = (Inr base, s')
           \<and> check w base 0 = Some k
           \<and> html = serialize (stripScripts (domAt w base k))"
  using assms
  by (auto simp: generateStaticHtml_def split: prod.splits sum.splits option.splits)








subsection \<open>The bounded wait\<close>

text \<open>The poll that resolves is the first one whose test succeeds.\<close>

lemma check_first:
  assumes "rendered (domAt w base m) \<or> now w m - start w > 5000"
    and "\<forall>j. i \<le> j \<and> j < m \<longrightarrow> \<not> rendered (domAt w base j) \<and> now w j - start w \<le> 5000"
    and "i \<le> m"
  shows "check w base i = Some m"
  using assms
proof (induction "m - i" arbitrary: i)
  case 0
  then have "i = m" by simp
  with "0.prems"(1) show ?case by (subst check.simps) auto
next
  case (Suc d)
  then have "i < m" by simp
  with Suc.prems(2) have "\<not> rendered (domAt w base i)" and "\<not> now w i - start w > 5000"
    by auto
  then have "check w base i = check w base (Suc i)"
    by (subst check.simps) simp
  also have "\<dots> = Some m"
    using Suc.hyps(2) Suc.prems \<open>i < m\<close> by (intro Suc.hyps(1)) auto
  finally show ?case .
qed

lemma check_terminates:
  assumes "\<exists>n. now w n - start w > 5000"
  shows "\<exists>k. check w base 0 = Some k
           \<and> (rendered (domAt w base k) \<or> now w k - start w > 5000)
           \<and> (\<forall>j<k. \<not> rendered (domAt w base j) \<and> now w j - start w \<le> 5000)"
proof -
  let ?stop = "\<lambda>k. rendered (domAt w base k) \<or> now w k - start w > 5000"
  from assms obtain n where "now w n - start w > 5000" ..
  then have ex: "?stop n" ..
  define m where "m = (LEAST k. ?stop k)"
  have stop: "?stop m"
    unfolding m_def using ex by (rule LeastI)
  have "\<not> ?stop j" if "j < m" for j
    using that unfolding m_def by (rule not_less_Least)
  then have before: "\<forall>j<m. \<not> rendered (domAt w base j) \<and> now w j - start w \<le> 5000"
    by (auto simp: not_less)
  with stop have "check w base 0 = Some m"
    by (intro check_first) auto
  with stop before show ?thesis by blast
qed

lemma slow_check: "check slowWorld base 0 = Some 167"
proof (rule check_first)
  show "rendered (domAt slowWorld base 167) \<or> now slowWorld 167 - start slowWorld > 5000"
    by (simp add: slowWorld_def sampleWorld_def)
  show "\<forall>j. 0 \<le> j \<and> j < 167 \<longrightarrow>
          \<not> rendered (domAt slowWorld base j) \<and> now slowWorld j - start slowWorld \<le> 5000"
    by (simp add: slowWorld_def sampleWorld_def rendered_def getElementById_def)
qed simp

text \<open>
  C7, as the claim states it, fails. With a diff viewer that never renders and timers
  that fire 5 ms late, the wait resolves in the poll numbered 167, which runs 5030 ms
  after the wait began and 5010 ms after the first poll: later than the 5 seconds.
\<close>

theorem check_resolves_after_timeout:
  "check slowWorld ''<html></html>'' 0 = Some 167
   \<and> now slowWorld 167 - start slowWorld = 5030
   \<and> now slowWorld 167 - now slowWorld 0 = 5010
   \<and> \<not> now slowWorld 167 - start slowWorld \<le> 5000
   \<and> \<not> now slowWorld 167 - now slowWorld 0 \<le> 5000"
  using slow_check [of "''<html></html>''"]
  by (simp add: slowWorld_def sampleWorld_def)

lemma twoChains_check: "check twoChainsWorld base 0 = Some 400"
proof (rule check_first)
  show "rendered (domAt twoChainsWorld base 400)
      \<or> now twoChainsWorld 400 - start twoChainsWorld > 5000"
    by (simp add: twoChainsWorld_def sampleWorld_def)
  show "\<forall>j. 0 \<le> j \<and> j < 400 \<longrightarrow>
          \<not> rendered (domAt twoChainsWorld base j)
          \<and> now twoChainsWorld j - start twoChainsWorld \<le> 5000"
  proof (intro allI impI)
    fix j :: nat
    assume "0 \<le> j \<and> j < 400"
    then have "j div 2 \<le> 199" by presburger
    then have "int (j div 2) \<le> 199" by simp
    then show "\<not> rendered (domAt twoChainsWorld base j)
        \<and> now twoChainsWorld j - start twoChainsWorld \<le> 5000"
      by (simp add: twoChainsWorld_def sampleWorld_def rendered_def getElementById_def)
  qed
qed simp

text \<open>
  C7, amended. When some poll runs more than 5000 ms after the wait began, as it does
  while the timers keep firing, the wait of the static renderer ends: the promise
  resolves in the first poll that finds a child element in the diff container or more
  than 5000 ms gone since the wait began, no poll before it does, and
  \<open>generateStaticHtml\<close> goes on to its result without an error of the wait. The time of
  that poll has no bound of its own.
\<close>

theorem check_bounded_wait:
  assumes "\<exists>n. now w n - start w > 5000"
  shows "(\<exists>k. check w base 0 = Some k
            \<and> (rendered (domAt w base k) \<or> now w k - start w > 5000)
            \<and> (\<forall>j<k. \<not> rendered (domAt w base j) \<and> now w j - start w \<le> 5000))
         \<and> generateStaticHtml w commit commitMessage diffOutput s \<noteq> None"
proof
  show "\<exists>k. check w base 0 = Some k
            \<and> (rendered (domAt w base k) \<or> now w k - start w > 5000)
            \<and> (\<forall>j<k. \<not> rendered (domAt w base j) \<and> now w j - start w \<le> 5000)"
    using assms by (rule check_terminates)
  show "generateStaticHtml w commit commitMessage diffOutput s \<noteq> None"
  proof (cases "generateHtml w commit commitMessage diffOutput s")
    case (Pair r s')
    show ?thesis
    proof (cases r)
      case (Inl code)
      with Pair show ?thesis by (simp add: generateStaticHtml_def)
    next
      case (Inr html)
      from check_terminates [OF assms, of html] obtain k where "check w html 0 = Some k"
        by blast
      with Pair Inr show ?thesis by (simp add: generateStaticHtml_def)
    qed
  qed
qed

theorem check_bounded_wait_witness:
  "now twoChainsWorld 400 - start twoChainsWorld > 5000
   \<and> now twoChainsWorld 0 = now twoChainsWorld 1
   \<and> now twoChainsWorld 398 = now twoChainsWorld 399
   \<and> check twoChainsWorld ''<html></html>'' 0 = Some 400
   \<and> now twoChainsWorld 399 - start twoChainsWorld = 4995
   \<and> now twoChainsWorld 400 - start twoChainsWorld = 5020
   \<and> generateStaticHtml twoChainsWorld ''abc1234'' ''Fix typo'' ''diff'' freshProcess \<noteq> None"
proof -
  have late: "now twoChainsWorld 400 - start twoChainsWorld > 5000"
    by (simp add: twoChainsWorld_def sampleWorld_def)
  then have "\<exists>n. now twoChainsWorld n - start twoChainsWorld > 5000" ..
  from check_bounded_wait [OF this, of "''<html></html>''" "''abc1234''" "''Fix typo''" "''diff''" freshProcess]
  have "generateStaticHtml twoChainsWorld ''abc1234'' ''Fix typo'' ''diff'' freshProcess \<noteq> None"
    by blast
  with late twoChains_check [of "''<html></html>''"] show ?thesis
    by (simp add: twoChainsWorld_def sampleWorld_def)
qed

section \<open>Properties of the document composer\<close>

lemma trim_between:
  assumes "\<forall>c\<in>set a. isWhitespace c" and "\<forall>c\<in>set b. isWhitespace c"
    and "s \<noteq> []" and "\<not> isWhitespace (hd s)" and "\<not> isWhitespace (last s)"
  shows "trim (a @ s @ b) = s"
proof -
  from assms(3,4) obtain x xs where s: "s = x # xs" and x: "\<not> isWhitespace x"
    by (cases s) auto
  from assms(3,5) obtain ys y where s': "s = ys @ [y]" and y: "\<not> isWhitespace y"
    by (cases s rule: rev_cases) auto
  from assms(1) have "dropWhile isWhitespace a = []"
    by simp
  with x have front: "dropWhile isWhitespace (a @ s @ b) = s @ b"
    by (simp add: s dropWhile_append3)
  from assms(2) have "dropWhile isWhitespace (rev b) = []"
    by simp
  with y have "dropWhile isWhitespace (rev b @ rev s) = rev s"
    by (simp add: s' dropWhile_append3)
  with front show ?thesis by (simp add: trim_def)
qed


lemma templateHead_start: "templateHead \<noteq> []" "hd templateHead = CHR ''<''"
  by (simp_all add: templateHead_def)

lemma templateTail_end: "templateTail \<noteq> []" "last templateTail = CHR ''>''"
proof -
  show "templateTail \<noteq> []"
    by (simp add: templateTail_def)
  show "last templateTail = CHR ''>''"
    unfolding templateTail_def
    by (simp only: last_appendR last.simps list.simps append_assoc append_is_Nil_conv
        simp_thms if_True if_False)
qed

lemma page_ends:
  "page commit cssHighlight cssDiff2Html message jsDiff2Html diff \<noteq> []"
  "hd (page commit cssHighlight cssDiff2Html message jsDiff2Html diff) = CHR ''<''"
  "last (page commit cssHighlight cssDiff2Html message jsDiff2Html diff) = CHR ''>''"
  by (simp_all add: page_def templateHead_start templateTail_end)

lemma trim_template:
  "trim (template commit cssHighlight cssDiff2Html message jsDiff2Html diff)
     = page commit cssHighlight cssDiff2Html message jsDiff2Html diff"
  unfolding template_def
  by (rule trim_between) (simp_all add: page_ends isWhitespace_def)

lemma generateHtml_Inr:
  assumes "generateHtml w commit commitMessage diffOutput s = (Inr html, s')"
  shows "\<exists>cssHighlight cssDiff2Html jsDiff2Html.
           readLib w ''highlightjs-github.min.css'' = Some cssHighlight
           \<and> readLib w ''diff2html.min.css'' = Some cssDiff2Html
           \<and> readLib w ''diff2html-ui.min.js'' = Some jsDiff2Html
           \<and> s' = s
           \<and> html = page commit (safeInline cssHighlight ''style'')
                    (safeInline cssDiff2Html ''style'')
                    (if escapeHtml commitMessage \<noteq> [] then escapeHtml commitMessage
                     else ''No commit message'')
                    (safeInline jsDiff2Html ''script'') (escapedDiff diffOutput)"
proof -
  from assms obtain a where a: "readLib w ''highlightjs-github.min.css'' = Some a"
    by (cases "readLib w ''highlightjs-github.min.css''")
       (auto simp: generateHtml_def readLibRequired_def)
  from assms a obtain b where b: "readLib w ''diff2html.min.css'' = Some b"
    by (cases "readLib w ''diff2html.min.css''")
       (auto simp: generateHtml_def readLibRequired_def)
  from assms a b obtain c where c: "readLib w ''diff2html-ui.min.js'' = Some c"
    by (cases "readLib w ''diff2html-ui.min.js''")
       (auto simp: generateHtml_def readLibRequired_def)
  from assms a b c show ?thesis
    by (simp add: generateHtml_def readLibRequired_def Let_def trim_template)
qed

lemma sublist_title:
  \<open>sublist (''<title>Commit '' @ commit @ '' Diff</title>'')
     (page commit cssHighlight cssDiff2Html message jsDiff2Html diff)\<close>
proof -
  have \<open>page commit cssHighlight cssDiff2Html message jsDiff2Html diff
      = (templateHead @ ''  '') @ (''<title>Commit '' @ commit @ '' Diff</title>'') @
        (''\<newline>'' @
         ''  <style>'' @ cssHighlight @ ''</style>\<newline>'' @
         ''  <style>'' @ cssDiff2Html @ ''</style>\<newline>'' @
         templateStyle @
         ''  <h1>Changes in Commit '' @ commit @ ''</h1>\<newline>'' @
         ''  <div class="commit-meta" id="commit-message">'' @ message @ ''</div>\<newline>'' @
         ''  <div id="diff-container"></div>\<newline>'' @
         ''  <script>'' @ jsDiff2Html @ ''</script>\<newline>'' @
         templateBoot @ [CHR 0x27] @ diff @ [CHR 0x27] @ templateTail)\<close>
    by (simp add: page_def)
  then show ?thesis by (simp only: sublist_appendI)
qed

lemma sublist_heading:
  \<open>sublist (''<h1>Changes in Commit '' @ commit @ ''</h1>'')
     (page commit cssHighlight cssDiff2Html message jsDiff2Html diff)\<close>
proof -
  have \<open>page commit cssHighlight cssDiff2Html message jsDiff2Html diff
      = (templateHead @
         ''  <title>Commit '' @ commit @ '' Diff</title>\<newline>'' @
         ''  <style>'' @ cssHighlight @ ''</style>\<newline>'' @
         ''  <style>'' @ cssDiff2Html @ ''</style>\<newline>'' @
         templateStyle @ ''  '') @
        (''<h1>Changes in Commit '' @ commit @ ''</h1>'') @
        (''\<newline>'' @
         ''  <div class="commit-meta" id="commit-message">'' @ message @ ''</div>\<newline>'' @
         ''  <div id="diff-container"></div>\<newline>'' @
         ''  <script>'' @ jsDiff2Html @ ''</script>\<newline>'' @
         templateBoot @ [CHR 0x27] @ diff @ [CHR 0x27] @ templateTail)\<close>
    by (simp add: page_def)
  then show ?thesis by (simp only: sublist_appendI)
qed

lemma sublist_message:
  \<open>sublist (''<div class="commit-meta" id="commit-message">'' @ message @ ''</div>'')
     (page commit cssHighlight cssDiff2Html message jsDiff2Html diff)\<close>
proof -
  have \<open>page commit cssHighlight cssDiff2Html message jsDiff2Html diff
      = (templateHead @
         ''  <title>Commit '' @ commit @ '' Diff</title>\<newline>'' @
         ''  <style>'' @ cssHighlight @ ''</style>\<newline>'' @
         ''  <style>'' @ cssDiff2Html @ ''</style>\<newline>'' @
         templateStyle @
         ''  <h1>Changes in Commit '' @ commit @ ''</h1>\<newline>'' @ ''  '') @
        (''<div class="commit-meta" id="commit-message">'' @ message @ ''</div>'') @
        (''\<newline>'' @
         ''  <div id="diff-container"></div>\<newline>'' @
         ''  <script>'' @ jsDiff2Html @ ''</script>\<newline>'' @
         templateBoot @ [CHR 0x27] @ diff @ [CHR 0x27] @ templateTail)\<close>
    by (simp add: page_def)
  then show ?thesis by (simp only: sublist_appendI)
qed


lemma sample_generateHtml:
  "\<exists>html. generateHtml sampleWorld commit commitMessage diffOutput freshProcess
     = (Inr html, freshProcess)"
  by (simp add: generateHtml_def readLibRequired_def Let_def sampleWorld_def)


text \<open>
  C10. For every commit reference, \<open>generateHtml\<close> writes the reference as it is, with
  no escaping, into the title and into the top heading of the page, while the commit
  message goes through \<open>escapeHtml\<close>: a reference that holds markup appears as markup.
\<close>

theorem generateHtml_commit_verbatim:
  \<open>generateHtml w commit commitMessage diffOutput s = (Inr html, s') \<longrightarrow>
     sublist (''<title>Commit '' @ commit @ '' Diff</title>'') html
     \<and> sublist (''<h1>Changes in Commit '' @ commit @ ''</h1>'') html
     \<and> sublist (''<div class="commit-meta" id="commit-message">'' @
           (if escapeHtml commitMessage \<noteq> [] then escapeHtml commitMessage
            else ''No commit message'') @ ''</div>'') html\<close>
proof
  assume "generateHtml w commit commitMessage diffOutput s = (Inr html, s')"
  from generateHtml_Inr [OF this] obtain a b c where
    \<open>html = page commit a b
       (if escapeHtml commitMessage \<noteq> [] then escapeHtml commitMessage
        else ''No commit message'') c (escapedDiff diffOutput)\<close>
    by blast
  then show \<open>sublist (''<title>Commit '' @ commit @ '' Diff</title>'') html
     \<and> sublist (''<h1>Changes in Commit '' @ commit @ ''</h1>'') html
     \<and> sublist (''<div class="commit-meta" id="commit-message">'' @
           (if escapeHtml commitMessage \<noteq> [] then escapeHtml commitMessage
            else ''No commit message'') @ ''</div>'') html\<close>
    using sublist_title sublist_heading sublist_message by blast
qed

theorem generateHtml_commit_verbatim_witness:
  \<open>\<exists>html. generateHtml sampleWorld ''<b>HEAD</b>'' ''<b>Fix</b>'' ''diff'' freshProcess
       = (Inr html, freshProcess)
     \<and> sublist ''<title>Commit <b>HEAD</b> Diff</title>'' html
     \<and> sublist ''<h1>Changes in Commit <b>HEAD</b></h1>'' html
     \<and> sublist ''<div class="commit-meta" id="commit-message">&lt;b&gt;Fix&lt;/b&gt;</div>'' html\<close>
proof -
  from sample_generateHtml obtain html where
    h: \<open>generateHtml sampleWorld ''<b>HEAD</b>'' ''<b>Fix</b>'' ''diff'' freshProcess
         = (Inr html, freshProcess)\<close>
    by blast
  have e: \<open>escapeHtml ''<b>Fix</b>'' = ''&lt;b&gt;Fix&lt;/b&gt;''\<close>
    by (simp add: escapeHtml_entity entity_def)
  from generateHtml_commit_verbatim
    [where w = sampleWorld and commit = \<open>''<b>HEAD</b>''\<close> and commitMessage = \<open>''<b>Fix</b>''\<close>
       and diffOutput = "''diff''" and s = freshProcess and html = html and s' = freshProcess] h
  have \<open>sublist ''<title>Commit <b>HEAD</b> Diff</title>'' html
     \<and> sublist ''<h1>Changes in Commit <b>HEAD</b></h1>'' html
     \<and> sublist ''<div class="commit-meta" id="commit-message">&lt;b&gt;Fix&lt;/b&gt;</div>'' html\<close>
    by (simp add: e)
  with h show ?thesis by blast
qed

section \<open>Properties of the run\<close>

subsection \<open>What each step leaves unchanged\<close>

lemma getLastCommitHash_frame:
  "getLastCommitHash w s = (r, s') \<Longrightarrow> files s' = files s \<and> writes s' = writes s"
  by (auto simp: getLastCommitHash_def runCommand_def consoleError_def split: sum.splits)

lemma commitOf_frame:
  "commitOf w positional s = (r, s') \<Longrightarrow> files s' = files s \<and> writes s' = writes s"
  by (auto simp: commitOf_def dest: getLastCommitHash_frame split: list.splits if_splits)

lemma getCommitMessage_cases:
  "getCommitMessage w commit s =
     (case execSync w (messageCommand commit) of
        Inr out \<Rightarrow> (Inr (trim out), s\<lparr>commands := commands s @ [messageCommand commit]\<rparr>)
      | Inl message \<Rightarrow>
          (Inl 1, s\<lparr>commands := commands s @ [messageCommand commit],
                    stderr := stderr s @ [''Error getting commit message: '' @ message]\<rparr>))"
  by (simp add: getCommitMessage_def runCommand_def consoleError_def split: sum.splits)

lemma getCommitDiff_cases:
  "getCommitDiff w commit s =
     (case execSync w (diffCommand commit) of
        Inr out \<Rightarrow> (Inr out, s\<lparr>commands := commands s @ [diffCommand commit]\<rparr>)
      | Inl message \<Rightarrow>
          (Inl 1, s\<lparr>commands := commands s @ [diffCommand commit],
                    stderr := stderr s @ [''Error getting commit diff: '' @ message]\<rparr>))"
  by (simp add: getCommitDiff_def runCommand_def consoleError_def split: sum.splits)

lemma getLastCommitHash_exit: "getLastCommitHash w s = (Inl code, s') \<Longrightarrow> code = 1"
  by (auto simp: getLastCommitHash_def runCommand_def split: sum.splits)

lemma commitOf_exit: "commitOf w positional s = (Inl code, s') \<Longrightarrow> code = 1"
  by (auto simp: commitOf_def dest: getLastCommitHash_exit split: list.splits if_splits)

lemma generateHtml_exit:
  "generateHtml w commit commitMessage diffOutput s = (Inl code, s') \<Longrightarrow> code = 1"
  by (auto simp: generateHtml_def readLibRequired_def Let_def split: option.splits)

lemma generateStaticHtml_exit:
  "generateStaticHtml w commit commitMessage diffOutput s = Some (Inl code, s') \<Longrightarrow> code = 1"
  by (auto simp: generateStaticHtml_def dest: generateHtml_exit
      split: prod.splits sum.splits option.splits)

lemma generateHtml_state:
  "generateHtml w commit commitMessage diffOutput s = (Inr html, s') \<Longrightarrow> s' = s"
  by (drule generateHtml_Inr) blast

lemma generateStaticHtml_state:
  "generateStaticHtml w commit commitMessage diffOutput s = Some (Inr html, s') \<Longrightarrow> s' = s"
  by (drule generateStaticHtml_Inr) (auto dest: generateHtml_state)

text \<open>The page does not depend on the state in which it is composed.\<close>

lemma generateHtml_any_state:
  assumes "generateHtml w commit commitMessage diffOutput t = (Inr html, t')"
  shows "generateHtml w commit commitMessage diffOutput s = (Inr html, s)"
proof -
  from generateHtml_Inr [OF assms] obtain a b c where
    "readLib w ''highlightjs-github.min.css'' = Some a"
    "readLib w ''diff2html.min.css'' = Some b"
    "readLib w ''diff2html-ui.min.js'' = Some c"
    "html = page commit (safeInline a ''style'') (safeInline b ''style'')
              (if escapeHtml commitMessage \<noteq> [] then escapeHtml commitMessage
               else ''No commit message'')
              (safeInline c ''script'') (escapedDiff diffOutput)"
    by blast
  then show ?thesis
    by (simp add: generateHtml_def readLibRequired_def Let_def trim_template)
qed

lemma generateStaticHtml_any_state:
  assumes "generateStaticHtml w commit commitMessage diffOutput t = Some (Inr html, t')"
  shows "generateStaticHtml w commit commitMessage diffOutput s = Some (Inr html, s)"
proof -
  from generateStaticHtml_Inr [OF assms] obtain base k where
    "generateHtml w commit commitMessage diffOutput t = (Inr base, t')"
    and k: "check w base 0 = Some k" "html = serialize (stripScripts (domAt w base k))"
    by blast
  from generateHtml_any_state [OF this(1)] k show ?thesis
    by (simp add: generateStaticHtml_def)
qed

text \<open>The state in which a run ends with status 0.\<close>

lemma main_success_step:
  assumes "main w args s = Some (0, s')"
  shows "\<exists>commit s0 out diffOutput html t.
           commitOf w (filter (\<lambda>a. \<not> startsWith a ''-'') args) s = (Inr commit, s0)
           \<and> execSync w (messageCommand commit) = Inr out
           \<and> execSync w (diffCommand commit) = Inr diffOutput
           \<and> (if ''--static'' \<in> set args
               then generateStaticHtml w commit (trim out) diffOutput t = Some (Inr html, t)
               else generateHtml w commit (trim out) diffOutput t = (Inr html, t))
           \<and> writeFails w (''commit-'' @ commit @ ''-diff.html'') = None
           \<and> commands s' = commands s0 @ [messageCommand commit, diffCommand commit]
           \<and> files s' = (files s0)(''commit-'' @ commit @ ''-diff.html'' \<mapsto> html)
           \<and> writes s' = writes s0 @ [''commit-'' @ commit @ ''-diff.html'']"
proof -
  let ?positional = "filter (\<lambda>a. \<not> startsWith a ''-'') args"
  let ?static = "''--static'' \<in> set args"
  obtain r s0 where c0: "commitOf w ?positional s = (r, s0)"
    by (cases "commitOf w ?positional s")
  from assms c0 commitOf_exit [of w ?positional s _ s0] obtain commit where "r = Inr commit"
    by (cases r) (auto simp: main_def Let_def)
  with c0 have c: "commitOf w ?positional s = (Inr commit, s0)"
    by simp
  from assms c obtain out where m: "execSync w (messageCommand commit) = Inr out"
    by (cases "execSync w (messageCommand commit)")
       (auto simp: main_def Let_def getCommitMessage_cases)
  from assms c m obtain diffOutput where d: "execSync w (diffCommand commit) = Inr diffOutput"
    by (cases "execSync w (diffCommand commit)")
       (auto simp: main_def Let_def getCommitMessage_cases getCommitDiff_cases)
  let ?path = "''commit-'' @ commit @ ''-diff.html''"
  obtain s1 where s1: "s1 = consoleLog (''Generating '' @ (if ?static then ''static '' else []) @
      ''diff for commit: '' @ commit) s0"
    by blast
  obtain t where t: "t = s1\<lparr>commands := commands s1 @ [messageCommand commit]\<rparr>
      \<lparr>commands := commands (s1\<lparr>commands := commands s1 @ [messageCommand commit]\<rparr>) @
         [diffCommand commit]\<rparr>"
    by blast
  have gm: "getCommitMessage w commit s1
      = (Inr (trim out), s1\<lparr>commands := commands s1 @ [messageCommand commit]\<rparr>)"
    by (simp only: getCommitMessage_cases m sum.case)
  have gd: "getCommitDiff w commit (s1\<lparr>commands := commands s1 @ [messageCommand commit]\<rparr>)
      = (Inr diffOutput, t)"
    by (simp only: getCommitDiff_cases d sum.case t)
  have frame: "commands t = commands s0 @ [messageCommand commit, diffCommand commit]"
    "files t = files s0" "writes t = writes s0"
    by (simp_all add: t s1 consoleLog_def)
  obtain finish where finish: "finish = (\<lambda>html s4.
    case writeFileSync w ?path html s4 of
      (Inl code, s5) \<Rightarrow> Some (code, s5)
    | (Inr u, s5) \<Rightarrow>
        Some (0::nat, consoleLog ((if ?static then ''Static (no JS) '' else []) @
                             ''HTML file created: '' @ ?path) s5))"
    by blast
  have "main w args s =
     (case (if ?static then generateStaticHtml w commit (trim out) diffOutput t
            else Some (generateHtml w commit (trim out) diffOutput t)) of
        None \<Rightarrow> None
      | Some (Inl code, s4) \<Rightarrow> Some (code, s4)
      | Some (Inr html, s4) \<Rightarrow> finish html s4)"
    unfolding main_def Let_def finish
    by (simp only: c prod.case sum.case gm gd flip: s1)
  with assms have run:
    "(case (if ?static then generateStaticHtml w commit (trim out) diffOutput t
            else Some (generateHtml w commit (trim out) diffOutput t)) of
        None \<Rightarrow> None
      | Some (Inl code, s4) \<Rightarrow> Some (code, s4)
      | Some (Inr html, s4) \<Rightarrow> finish html s4) = Some (0, s')"
    by (simp only:)
  obtain g where g: "(if ?static then generateStaticHtml w commit (trim out) diffOutput t
            else Some (generateHtml w commit (trim out) diffOutput t)) = g"
    by blast
  from run g obtain r4 s4 where g': "g = Some (r4, s4)"
    by (cases g) auto
  have "r4 \<noteq> Inl code" for code
  proof
    assume "r4 = Inl code"
    with run g g' have "code = 0" by simp
    moreover from g g' \<open>r4 = Inl code\<close> have "code = 1"
      by (auto split: if_splits dest: generateHtml_exit generateStaticHtml_exit)
    ultimately show False by simp
  qed
  then obtain html where "r4 = Inr html"
    by (cases r4) auto
  with run g g' have
    gen: "(if ?static then generateStaticHtml w commit (trim out) diffOutput t
           else Some (generateHtml w commit (trim out) diffOutput t)) = Some (Inr html, s4)"
    and wr: "finish html s4 = Some (0, s')"
    by simp_all
  from gen have s4: "s4 = t"
    by (auto split: if_splits dest: generateHtml_state generateStaticHtml_state)
  from wr have nofail: "writeFails w ?path = None"
    by (cases "writeFails w ?path") (auto simp: finish writeFileSync_def)
  with wr s4 have s': "s' = consoleLog ((if ?static then ''Static (no JS) '' else []) @
                                    ''HTML file created: '' @ ?path)
                (t\<lparr>files := (files t)(?path \<mapsto> html), writes := writes t @ [?path]\<rparr>)"
    by (simp add: finish writeFileSync_def)
  from gen s4 have "if ?static
      then generateStaticHtml w commit (trim out) diffOutput t = Some (Inr html, t)
      else generateHtml w commit (trim out) diffOutput t = (Inr html, t)"
    by (simp split: if_splits)
  moreover from s' frame have
    "commands s' = commands s0 @ [messageCommand commit, diffCommand commit]"
    "files s' = (files s0)(?path \<mapsto> html)"
    "writes s' = writes s0 @ [?path]"
    by (simp_all add: consoleLog_def)
  ultimately show ?thesis
    using c m d nofail by blast
qed

lemma main_success:
  assumes "main w args s = Some (0, s')"
  shows "\<exists>commit s0 out diffOutput html.
           commitOf w (filter (\<lambda>a. \<not> startsWith a ''-'') args) s = (Inr commit, s0)
           \<and> execSync w (messageCommand commit) = Inr out
           \<and> execSync w (diffCommand commit) = Inr diffOutput
           \<and> (if ''--static'' \<in> set args
               then generateStaticHtml w commit (trim out) diffOutput s = Some (Inr html, s)
               else generateHtml w commit (trim out) diffOutput s = (Inr html, s))
           \<and> writeFails w (''commit-'' @ commit @ ''-diff.html'') = None
           \<and> commands s' = commands s0 @ [messageCommand commit, diffCommand commit]
           \<and> files s' = (files s0)(''commit-'' @ commit @ ''-diff.html'' \<mapsto> html)
           \<and> writes s' = writes s0 @ [''commit-'' @ commit @ ''-diff.html'']"
proof -
  from main_success_step [OF assms] obtain commit s0 out diffOutput html t where
    step: "commitOf w (filter (\<lambda>a. \<not> startsWith a ''-'') args) s = (Inr commit, s0)"
      "execSync w (messageCommand commit) = Inr out"
      "execSync w (diffCommand commit) = Inr diffOutput"
      "writeFails w (''commit-'' @ commit @ ''-diff.html'') = None"
      "commands s' = commands s0 @ [messageCommand commit, diffCommand commit]"
      "files s' = (files s0)(''commit-'' @ commit @ ''-diff.html'' \<mapsto> html)"
      "writes s' = writes s0 @ [''commit-'' @ commit @ ''-diff.html'']"
    and gen: "if ''--static'' \<in> set args
      then generateStaticHtml w commit (trim out) diffOutput t = Some (Inr html, t)
      else generateHtml w commit (trim out) diffOutput t = (Inr html, t)"
    by blast
  from gen have "if ''--static'' \<in> set args
      then generateStaticHtml w commit (trim out) diffOutput s = Some (Inr html, s)
      else generateHtml w commit (trim out) diffOutput s = (Inr html, s)"
    by (auto split: if_splits intro: generateHtml_any_state generateStaticHtml_any_state)
  with step show ?thesis by blast
qed

subsection \<open>Failing extraction\<close>

text \<open>
  C5. When the reference of the run does not resolve to a commit, that is, when the
  version-control tool fails on the command for the message or on the command for the
  diff, the run ends with exit status 1 and has written no file: the files are as
  they were before the run.
\<close>

theorem main_fails_without_output:
  assumes "commitOf w (filter (\<lambda>a. \<not> startsWith a ''-'') args) s = (Inr commit, s0)"
    and "isl (execSync w (messageCommand commit)) \<or> isl (execSync w (diffCommand commit))"
  shows "\<exists>s'. main w args s = Some (1, s') \<and> files s' = files s \<and> writes s' = writes s"
proof (cases "execSync w (messageCommand commit)")
  case (Inl message)
  with assms(1) commitOf_frame [OF assms(1)] show ?thesis
    by (simp add: main_def Let_def getCommitMessage_cases consoleLog_def)
next
  case (Inr out)
  with assms(2) obtain message where "execSync w (diffCommand commit) = Inl message"
    by (cases "execSync w (diffCommand commit)") auto
  with Inr assms(1) commitOf_frame [OF assms(1)] show ?thesis
    by (simp add: main_def Let_def getCommitMessage_cases getCommitDiff_cases consoleLog_def)
qed

theorem main_fails_without_output_witness:
  "commitOf failingWorld (filter (\<lambda>a. \<not> startsWith a ''-'') [''--static'', ''nosuchref''])
     freshProcess = (Inr ''nosuchref'', freshProcess)
   \<and> isl (execSync failingWorld (messageCommand ''nosuchref''))
   \<and> (\<exists>s'. main failingWorld [''--static'', ''nosuchref''] freshProcess = Some (1, s')
          \<and> files s' = files freshProcess \<and> writes s' = [])"
proof -
  have c: "commitOf failingWorld (filter (\<lambda>a. \<not> startsWith a ''-'') [''--static'', ''nosuchref''])
      freshProcess = (Inr ''nosuchref'', freshProcess)"
    by (simp add: commitOf_def startsWith_def)
  have e: "isl (execSync failingWorld (messageCommand ''nosuchref''))"
    by (simp add: failingWorld_def)
  from main_fails_without_output [OF c] e
  have "\<exists>s'. main failingWorld [''--static'', ''nosuchref''] freshProcess = Some (1, s')
          \<and> files s' = files freshProcess \<and> writes s' = writes freshProcess"
    by blast
  with c e show ?thesis by (simp add: freshProcess_def)
qed

lemma sample_page:
  "generateHtml sampleWorld commit commitMessage diffOutput s =
     (Inr (page commit (safeInline ''x'' ''style'') (safeInline ''x'' ''style'')
             (if escapeHtml commitMessage \<noteq> [] then escapeHtml commitMessage
              else ''No commit message'')
             (safeInline ''x'' ''script'') (escapedDiff diffOutput)), s)"
  by (simp add: generateHtml_def readLibRequired_def Let_def sampleWorld_def trim_template)

lemma sample_main: "\<exists>s'. main sampleWorld [''abc1234''] freshProcess = Some (0, s')"
proof -
  have "execSync sampleWorld cmd = Inr ''  Fix typo\<newline>''" for cmd
    by (simp add: sampleWorld_def)
  moreover have "writeFails sampleWorld path = None" for path
    by (simp add: sampleWorld_def)
  ultimately show ?thesis
    by (simp add: main_def Let_def commitOf_def startsWith_def getCommitMessage_cases
        getCommitDiff_cases sample_page writeFileSync_def)
qed

subsection \<open>The two commands\<close>

lemma diffCommand_text:
  "diffCommand commit =
     ''git --no-pager show --no-color --no-ext-diff --unified=3 '' @
     ''--diff-algorithm=patience -M -C --ignore-cr-at-eol '' @ commit"
  by (simp add: diffCommand_def)

text \<open>
  C6, as the claim states it, fails for the commit message: the tool prints the message
  \<open>Fix typo\<close> with two blanks before it and a line break behind it, and
  \<open>getCommitMessage\<close> returns it without them, not as the tool printed it.
\<close>

theorem getCommitMessage_not_raw:
  "execSync sampleWorld (messageCommand ''abc1234'') = Inr ''  Fix typo\<newline>''
   \<and> fst (getCommitMessage sampleWorld ''abc1234'' freshProcess) = Inr ''Fix typo''
   \<and> ''Fix typo'' \<noteq> ''  Fix typo\<newline>''"
  by (simp add: getCommitMessage_cases sampleWorld_def trim_def isWhitespace_def)

text \<open>
  C6, amended. For every commit reference, \<open>getCommitDiff\<close> runs the version-control
  tool once, with the command \<open>git --no-pager show\<close> and the flags \<open>--no-color\<close>,
  \<open>--no-ext-diff\<close>, \<open>--unified=3\<close>, \<open>--diff-algorithm=patience\<close>, \<open>-M\<close>, \<open>-C\<close> and
  \<open>--ignore-cr-at-eol\<close> before the reference, and returns its standard output as it
  is. \<open>getCommitMessage\<close> runs it once with \<open>git log -1 --format=%B\<close> and returns the
  output with the white space at both ends removed. A run that ends with status 0 has
  run these two commands once each, after resolving the commit.
\<close>

theorem extraction_commands:
  "commands (snd (getCommitDiff w commit s)) = commands s @ [diffCommand commit]
   \<and> diffCommand commit =
       ''git --no-pager show --no-color --no-ext-diff --unified=3 '' @
       ''--diff-algorithm=patience -M -C --ignore-cr-at-eol '' @ commit
   \<and> (execSync w (diffCommand commit) = Inr out \<longrightarrow>
        fst (getCommitDiff w commit s) = Inr out)
   \<and> commands (snd (getCommitMessage w commit s)) = commands s @ [messageCommand commit]
   \<and> messageCommand commit = ''git log -1 --format=%B '' @ commit
   \<and> (execSync w (messageCommand commit) = Inr out \<longrightarrow>
        fst (getCommitMessage w commit s) = Inr (trim out))
   \<and> (main w args s = Some (0, s')
        \<and> commitOf w (filter (\<lambda>a. \<not> startsWith a ''-'') args) s = (Inr commit, s0) \<longrightarrow>
        commands s' = commands s0 @ [messageCommand commit, diffCommand commit])"
proof -
  have "commands s' = commands s0 @ [messageCommand commit, diffCommand commit]"
    if "main w args s = Some (0, s')"
      and "commitOf w (filter (\<lambda>a. \<not> startsWith a ''-'') args) s = (Inr commit, s0)"
    using main_success [OF that(1)] that(2) by auto
  then show ?thesis
    by (auto simp: getCommitDiff_cases getCommitMessage_cases diffCommand_text messageCommand_def
        split: sum.splits)
qed

theorem extraction_commands_witness:
  "main sampleWorld [''abc1234''] freshProcess \<noteq> None
   \<and> execSync sampleWorld (diffCommand ''abc1234'') = Inr ''  Fix typo\<newline>''
   \<and> fst (getCommitDiff sampleWorld ''abc1234'' freshProcess) = Inr ''  Fix typo\<newline>''
   \<and> fst (getCommitMessage sampleWorld ''abc1234'' freshProcess) = Inr ''Fix typo''
   \<and> (\<exists>s'. main sampleWorld [''abc1234''] freshProcess = Some (0, s')
          \<and> commands s' =
              [''git log -1 --format=%B abc1234'',
               ''git --no-pager show --no-color --no-ext-diff --unified=3 '' @
               ''--diff-algorithm=patience -M -C --ignore-cr-at-eol abc1234''])"
proof -
  from sample_main obtain s' where m: "main sampleWorld [''abc1234''] freshProcess = Some (0, s')"
    by blast
  have c: "commitOf sampleWorld (filter (\<lambda>a. \<not> startsWith a ''-'') [''abc1234'']) freshProcess
      = (Inr ''abc1234'', freshProcess)"
    by (simp add: commitOf_def startsWith_def)
  have e: "execSync sampleWorld (diffCommand ''abc1234'') = Inr ''  Fix typo\<newline>''"
    "execSync sampleWorld (messageCommand ''abc1234'') = Inr ''  Fix typo\<newline>''"
    by (simp_all add: sampleWorld_def)
  have t: "trim ''  Fix typo\<newline>'' = ''Fix typo''"
    by (simp add: trim_def isWhitespace_def)
  from extraction_commands
    [where w = sampleWorld and commit = "''abc1234''" and s = freshProcess
       and out = "''  Fix typo\<newline>''" and args = "[''abc1234'']" and s' = s'
       and ?s0.0 = freshProcess]
    m c e t
  have "fst (getCommitDiff sampleWorld ''abc1234'' freshProcess) = Inr ''  Fix typo\<newline>''
     \<and> fst (getCommitMessage sampleWorld ''abc1234'' freshProcess) = Inr ''Fix typo''
     \<and> commands s' = commands freshProcess @ [messageCommand ''abc1234'', diffCommand ''abc1234'']"
    by simp
  with m e show ?thesis
    by (simp add: freshProcess_def messageCommand_def diffCommand_text)
qed

subsection \<open>The output file\<close>



end
